theory Spec2Isabelle
  imports Main "HOL-Library.Word"
begin

unbundle bit_operations_syntax

chapter \<open>folly::SSLContext: a shallow embedding\<close>

text \<open>
  The theory embeds the parts of \<^verbatim>\<open>folly/io/async/SSLContext.{h,cpp}\<close> that decide the
  verification mode, the hostname matcher, the PEM credential loaders, the ALPN
  advertisement table and the accept-runner slot. Member functions become functions on
  an explicit state; a C++ exception or a failed glog \<^verbatim>\<open>CHECK\<close> becomes the left
  summand of the result. Calls into OpenSSL are not code of the repository: the outcome
  of every fallible OpenSSL call is a field of the record \<open>openssl\<close>, which every
  function that reaches the library takes as its first argument.
\<close>

section \<open>Failures and logging\<close>

text \<open>
  \<open>invalid_argument\<close> and \<open>runtime_error\<close> are the two exception classes the source
  throws. \<open>check_failed\<close> is a failed glog \<^verbatim>\<open>CHECK\<close>: it logs at severity FATAL and
  aborts the process, so no caller can catch it. An exception carries the literal
  text of the source; where the source appends \<^verbatim>\<open>getErrors()\<close> to that literal, the
  formatted error queue is left out of the model.
\<close>

datatype error =
    invalid_argument string
  | runtime_error string
  | check_failed string

datatype severity = ERROR

section \<open>Verification policy\<close>

datatype SSLVersion = SSLv2 | SSLv3 | TLSv1 | TLSv1_2 | TLSv1_3

datatype SSLVerifyPeerEnum = USE_CTX | VERIFY | VERIFY_REQ_CLIENT_CERT | NO_VERIFY

text \<open>
  The two scoped enumerations both have an enumerator \<^verbatim>\<open>IF_PRESENTED\<close>; the
  constructors carry the name of their enumeration to keep them apart.
\<close>

datatype VerifyClientCertificate =
  Client_ALWAYS | Client_IF_PRESENTED | Client_DO_NOT_REQUEST

datatype VerifyServerCertificate =
  Server_IF_PRESENTED | Server_IGNORE_VERIFY_RESULT

text \<open>The mode bits of \<^verbatim>\<open>openssl/ssl.h\<close>; the source asserts statically that the first is 0.\<close>

definition SSL_VERIFY_NONE :: int where
  "SSL_VERIFY_NONE = 0"

definition SSL_VERIFY_PEER :: int where
  "SSL_VERIFY_PEER = 1"

definition SSL_VERIFY_FAIL_IF_NO_PEER_CERT :: int where
  "SSL_VERIFY_FAIL_IF_NO_PEER_CERT = 2"

text \<open>\<^verbatim>\<open>static int getVerificationMode(const VerifyClientCertificate&)\<close>\<close>

fun getVerificationMode_client :: "VerifyClientCertificate \<Rightarrow> int" where
  "getVerificationMode_client Client_ALWAYS =
     SSL_VERIFY_PEER OR SSL_VERIFY_FAIL_IF_NO_PEER_CERT"
| "getVerificationMode_client Client_IF_PRESENTED = SSL_VERIFY_PEER"
| "getVerificationMode_client Client_DO_NOT_REQUEST = SSL_VERIFY_NONE"

text \<open>\<^verbatim>\<open>static int getVerificationMode(const VerifyServerCertificate&)\<close>\<close>

fun getVerificationMode_server :: "VerifyServerCertificate \<Rightarrow> int" where
  "getVerificationMode_server Server_IF_PRESENTED = SSL_VERIFY_PEER"
| "getVerificationMode_server Server_IGNORE_VERIFY_RESULT = SSL_VERIFY_NONE"

text \<open>
  \<^verbatim>\<open>static int getVerificationMode(const SSLVerifyPeerEnum&)\<close>. The function opens with
  \<^verbatim>\<open>CHECK(verifyPeer != SSLVerifyPeerEnum::USE_CTX)\<close>, so the \<^verbatim>\<open>USE_CTX\<close> label of
  the switch is never reached.
\<close>

definition getVerificationMode_peer :: "SSLVerifyPeerEnum \<Rightarrow> error + int" where
  "getVerificationMode_peer verifyPeer =
     (if verifyPeer = USE_CTX
      then Inl (check_failed ''verifyPeer != SSLVerifyPeerEnum::USE_CTX'')
      else Inr (case verifyPeer of
                  VERIFY \<Rightarrow> SSL_VERIFY_PEER
                | VERIFY_REQ_CLIENT_CERT \<Rightarrow>
                    SSL_VERIFY_PEER OR SSL_VERIFY_FAIL_IF_NO_PEER_CERT
                | NO_VERIFY \<Rightarrow> SSL_VERIFY_NONE
                | USE_CTX \<Rightarrow> SSL_VERIFY_NONE))"

section \<open>The native context and the library\<close>

text \<open>
  Certificates, keys and CA names are opaque to the source; a number names each one.
\<close>

datatype x509 = X509 nat

datatype evp_pkey = EVP_PKEY nat

datatype alpn_callback = alpnSelectCallback

text \<open>
  The slots of an \<^verbatim>\<open>SSL_CTX\<close> that the modelled functions set. The two ALPN slots are
  written by plain setters (\<open>SSL_CTX_set_alpn_select_cb\<close>, \<open>SSL_CTX_set_alpn_protos\<close>
  below); how the credential slots change is decided by the library.
\<close>

record SSL_CTX =
  certificate :: "x509 option"
  extra_chain :: "x509 list"
  private_key :: "evp_pkey option"
  verify_locations :: "string list"
  client_CA_list :: "string list"
  alpn_select_cb :: "alpn_callback option"
  alpn_protos :: string

text \<open>
  What the library answers. A call that the source tests against 0 or 1 yields \<open>None\<close>
  for the failing answer and the updated context otherwise; OpenSSL documents these
  calls to return 1 or 0, on which the source's \<^verbatim>\<open>!= 1\<close> and \<^verbatim>\<open>== 0\<close> tests agree.
  \<open>PEM_read_bio_X509\<close> reads from the bytes still pending in a memory BIO: it
  yields the certificate and the bytes left, or the error codes it queued when it
  returns null.
\<close>

record openssl =
  SSL_CTX_new :: "SSL_CTX option"
  SSL_CTX_up_ref :: "SSL_CTX \<Rightarrow> int"
  BIO_new :: bool
  BIO_write :: "string \<Rightarrow> int"
  PEM_read_bio_X509 :: "string \<Rightarrow> nat list + (x509 \<times> string)"
  PEM_read_bio_PrivateKey :: "string \<Rightarrow> evp_pkey option"
  SSL_CTX_use_certificate :: "SSL_CTX \<Rightarrow> x509 \<Rightarrow> SSL_CTX option"
  SSL_CTX_add1_chain_cert :: "SSL_CTX \<Rightarrow> x509 \<Rightarrow> SSL_CTX option"
  SSL_CTX_use_PrivateKey :: "SSL_CTX \<Rightarrow> evp_pkey \<Rightarrow> SSL_CTX option"
  SSL_CTX_use_certificate_chain_file :: "SSL_CTX \<Rightarrow> string \<Rightarrow> SSL_CTX option"
  SSL_CTX_use_PrivateKey_file :: "SSL_CTX \<Rightarrow> string \<Rightarrow> SSL_CTX option"
  SSL_CTX_check_private_key :: "SSL_CTX \<Rightarrow> int"
  SSL_CTX_load_verify_locations :: "SSL_CTX \<Rightarrow> string \<Rightarrow> SSL_CTX option"
  SSL_load_client_CA_file :: "string \<Rightarrow> string list option"
  SSL_CTX_set_alpn_protos_result :: "string \<Rightarrow> int"

text \<open>
  \<^verbatim>\<open>SSL_CTX_set_alpn_select_cb\<close> stores the callback (null unregisters it).
  \<^verbatim>\<open>SSL_CTX_set_alpn_protos\<close> returns 0 on success; a null or empty list clears the
  offer and succeeds, a list the library refuses leaves the offer as it was.
  \<^verbatim>\<open>SSL_CTX_set_client_CA_list\<close> stores the list.
\<close>

definition SSL_CTX_set_alpn_select_cb :: "SSL_CTX \<Rightarrow> alpn_callback option \<Rightarrow> SSL_CTX" where
  "SSL_CTX_set_alpn_select_cb ctx cb = ctx\<lparr>alpn_select_cb := cb\<rparr>"

definition SSL_CTX_set_alpn_protos :: "openssl \<Rightarrow> SSL_CTX \<Rightarrow> string option \<Rightarrow> int \<times> SSL_CTX" where
  "SSL_CTX_set_alpn_protos L ctx protos =
     (case protos of
        None \<Rightarrow> (0, ctx\<lparr>alpn_protos := []\<rparr>)
      | Some buf \<Rightarrow>
          (if buf = [] then (0, ctx\<lparr>alpn_protos := []\<rparr>)
           else if SSL_CTX_set_alpn_protos_result L buf = 0
           then (0, ctx\<lparr>alpn_protos := buf\<rparr>)
           else (SSL_CTX_set_alpn_protos_result L buf, ctx)))"

definition SSL_CTX_set_client_CA_list :: "SSL_CTX \<Rightarrow> string list \<Rightarrow> SSL_CTX" where
  "SSL_CTX_set_client_CA_list ctx names = ctx\<lparr>client_CA_list := names\<rparr>"

section \<open>The context object\<close>

text \<open>
  \<^verbatim>\<open>class SSLAcceptRunner\<close> is a base class with a virtual \<^verbatim>\<open>run\<close>; \<open>BaseRunner\<close> is
  an instance of the class itself, \<open>DerivedRunner\<close> one of a subclass.
\<close>

datatype SSLAcceptRunner = BaseRunner | DerivedRunner nat

text \<open>
  \<^verbatim>\<open>struct NextProtocolsItem\<close> (\<^verbatim>\<open>int weight\<close>, a 32-bit integer) and
  \<^verbatim>\<open>struct AdvertisedNextProtocolsItem\<close> (the wire buffer and its length).
\<close>

record NextProtocolsItem =
  weight :: "32 word"
  protocols :: "string list"

record AdvertisedNextProtocolsItem =
  adv_protocols :: string
  adv_length :: nat

text \<open>
  The members of \<^verbatim>\<open>SSLContext\<close> the modelled functions read or write. An
  Isabelle name cannot end in an underscore, so the member \<^verbatim>\<open>ctx_\<close> is the field
  \<open>ctx_'\<close>, and so on. A \<^verbatim>\<open>unique_ptr\<close> is an option: \<open>None\<close> is the null pointer.
\<close>

record SSLContext =
  ctx_' :: SSL_CTX
  verifyPeer_' :: SSLVerifyPeerEnum
  verifyClient_' :: VerifyClientCertificate
  verifyServer_' :: VerifyServerCertificate
  sslAcceptRunner_' :: "SSLAcceptRunner option"
  advertisedNextProtocols_' :: "AdvertisedNextProtocolsItem list"
  advertisedNextProtocolWeights_' :: "32 word list"

text \<open>
  A member function that logs or touches OpenSSL's error queue runs on a \<open>process\<close>:
  the object, the calling thread's error queue and the lines written to glog.
\<close>

record process =
  self :: SSLContext
  ERR_queue :: "nat list"
  glog :: "(severity \<times> string) list"

definition ERR_clear_error :: "process \<Rightarrow> process" where
  "ERR_clear_error p = p\<lparr>ERR_queue := []\<rparr>"

subsection \<open>Construction\<close>

text \<open>The default member initialisers of the class, around a given native context.\<close>

definition member_defaults :: "SSL_CTX \<Rightarrow> SSLContext" where
  "member_defaults ctx =
     \<lparr>ctx_' = ctx,
      verifyPeer_' = NO_VERIFY,
      verifyClient_' = Client_DO_NOT_REQUEST,
      verifyServer_' = Server_IGNORE_VERIFY_RESULT,
      sslAcceptRunner_' = None,
      advertisedNextProtocols_' = [],
      advertisedNextProtocolWeights_' = []\<rparr>"

text \<open>
  \<^verbatim>\<open>SSLContext::SSLContext(SSLVersion version)\<close>. Protocol bounds, options and the
  session callbacks it installs are outside the modelled slots.
\<close>

definition SSLContext_from_version :: "openssl \<Rightarrow> SSLVersion \<Rightarrow> error + SSLContext" where
  "SSLContext_from_version L version =
     (if version = TLSv1_3
      then Inl (runtime_error ''A minimum TLS version of TLS 1.3 is currently unsupported.'')
      else case SSL_CTX_new L of
             None \<Rightarrow> Inl (runtime_error ''SSL_CTX_new: '')
           | Some ctx \<Rightarrow>
               Inr ((member_defaults ctx)\<lparr>sslAcceptRunner_' := Some BaseRunner\<rparr>))"

text \<open>\<^verbatim>\<open>SSLContext::SSLContext(SSL_CTX* ctx) : ctx_(ctx)\<close>\<close>

definition SSLContext_from_ctx :: "openssl \<Rightarrow> SSL_CTX \<Rightarrow> error + SSLContext" where
  "SSLContext_from_ctx L ctx =
     (if SSL_CTX_up_ref L ctx = 0
      then Inl (runtime_error ''Failed to increment SSL_CTX refcount'')
      else Inr (member_defaults ctx))"

subsection \<open>The accept runner\<close>

text \<open>\<^verbatim>\<open>void sslAcceptRunner(std::unique_ptr<SSLAcceptRunner> runner)\<close>\<close>

definition sslAcceptRunner_set :: "SSLAcceptRunner option \<Rightarrow> process \<Rightarrow> process" where
  "sslAcceptRunner_set runner p =
     (case runner of
        None \<Rightarrow> p\<lparr>glog := glog p @ [(ERROR, ''Ignore invalid runner'')]\<rparr>
      | Some r \<Rightarrow> p\<lparr>self := (self p)\<lparr>sslAcceptRunner_' := Some r\<rparr>\<rparr>)"

text \<open>\<^verbatim>\<open>const SSLAcceptRunner* sslAcceptRunner()\<close>\<close>

definition sslAcceptRunner :: "SSLContext \<Rightarrow> SSLAcceptRunner option" where
  "sslAcceptRunner c = sslAcceptRunner_' c"

subsection \<open>Verification options\<close>

text \<open>\<^verbatim>\<open>void setVerificationOption(const SSLVerifyPeerEnum& verifyPeer)\<close>\<close>

definition setVerificationOption_peer :: "SSLVerifyPeerEnum \<Rightarrow> SSLContext \<Rightarrow> error + SSLContext" where
  "setVerificationOption_peer verifyPeer c =
     (if verifyPeer = USE_CTX
      then Inl (check_failed ''verifyPeer != SSLVerifyPeerEnum::USE_CTX'')
      else Inr (c\<lparr>verifyPeer_' := verifyPeer\<rparr>))"

definition setVerificationOption_client :: "VerifyClientCertificate \<Rightarrow> SSLContext \<Rightarrow> SSLContext" where
  "setVerificationOption_client verifyClient c = c\<lparr>verifyClient_' := verifyClient\<rparr>"

definition setVerificationOption_server :: "VerifyServerCertificate \<Rightarrow> SSLContext \<Rightarrow> SSLContext" where
  "setVerificationOption_server verifyServer c = c\<lparr>verifyServer_' := verifyServer\<rparr>"

text \<open>
  \<^verbatim>\<open>int getVerificationMode()\<close>: the bitwise or of the three static resolutions; the one
  of the legacy enumeration can fail its check.
\<close>

definition getVerificationMode :: "SSLContext \<Rightarrow> error + int" where
  "getVerificationMode c =
     (case getVerificationMode_peer (verifyPeer_' c) of
        Inl e \<Rightarrow> Inl e
      | Inr peer \<Rightarrow>
          Inr (getVerificationMode_client (verifyClient_' c) OR
               getVerificationMode_server (verifyServer_' c) OR peer))"

text \<open>\<^verbatim>\<open>bool needsPeerVerification()\<close>\<close>

definition needsPeerVerification :: "SSLContext \<Rightarrow> error + bool" where
  "needsPeerVerification c =
     (case getVerificationMode c of
        Inl e \<Rightarrow> Inl e
      | Inr mode \<Rightarrow> Inr (mode \<noteq> SSL_VERIFY_NONE))"

section \<open>Hostname matching\<close>

text \<open>
  \<^verbatim>\<open>toupper\<close> of the C library in the "C" locale: the 26 lower-case letters move to
  upper case, every other byte stays.
\<close>

definition toupper :: "char \<Rightarrow> char" where
  "toupper c =
     (if 97 \<le> (of_char c :: nat) \<and> (of_char c :: nat) \<le> 122
      then char_of ((of_char c :: nat) - 32) else c)"

text \<open>
  \<open>char_at s j\<close> is \<^verbatim>\<open>s[j]\<close> for a NUL-terminated string whose bytes before the
  terminator are \<open>s\<close>.
\<close>

definition char_at :: "string \<Rightarrow> nat \<Rightarrow> char" where
  "char_at s j = (if j < length s then s ! j else CHR 0x00)"

text \<open>The inner loop: \<^verbatim>\<open>while (host[j] != '.' && host[j] != '\0') j++;\<close>\<close>

function skip_component :: "string \<Rightarrow> nat \<Rightarrow> nat" where
  "skip_component host j =
     (if char_at host j \<noteq> CHR ''.'' \<and> char_at host j \<noteq> CHR 0x00
      then skip_component host (j + 1) else j)"
  by pat_completeness auto
termination
  by (relation "measure (\<lambda>(host, j). length host - j)")
     (auto simp: char_at_def split: if_splits)

declare skip_component.simps [simp del]

text \<open>
  The outer loop of \<^verbatim>\<open>matchName\<close>, from the values of \<^verbatim>\<open>i\<close> and \<^verbatim>\<open>j\<close> at the loop head
  to their values when the loop is left. The source reads \<^verbatim>\<open>pattern[i]\<close> only for
  \<^verbatim>\<open>i < size\<close>; its callers pass the length of \<^verbatim>\<open>pattern\<close> as \<^verbatim>\<open>size\<close>
  (the parameter \<open>size'\<close> here).
\<close>

function matchName_loop :: "string \<Rightarrow> string \<Rightarrow> int \<Rightarrow> nat \<Rightarrow> nat \<Rightarrow> nat \<times> nat" where
  "matchName_loop host pattern size' i j =
     (if int i < size' \<and> char_at host j \<noteq> CHR 0x00 then
        if toupper (pattern ! i) = toupper (char_at host j)
        then matchName_loop host pattern size' (i + 1) (j + 1)
        else if pattern ! i = CHR ''*''
        then matchName_loop host pattern size' (i + 1) (skip_component host j)
        else (i, j)
      else (i, j))"
  by pat_completeness auto
termination
  by (relation "measure (\<lambda>(host, pattern, size', i, j). nat (size' - int i))") auto

declare matchName_loop.simps [simp del]

text \<open>\<^verbatim>\<open>static bool matchName(const char* host, const char* pattern, int size)\<close>\<close>

definition matchName :: "string \<Rightarrow> string \<Rightarrow> int \<Rightarrow> bool" where
  "matchName host pattern size' =
     (case matchName_loop host pattern size' 0 0 of
        (i, j) \<Rightarrow> int i = size' \<and> char_at host j = CHR 0x00)"

section \<open>Credentials\<close>

definition set_ctx :: "process \<Rightarrow> SSL_CTX \<Rightarrow> process" where
  "set_ctx p ctx = p\<lparr>self := (self p)\<lparr>ctx_' := ctx\<rparr>\<rparr>"

text \<open>\<^verbatim>\<open>void loadCertificate(const char* path, const char* format)\<close>\<close>

definition loadCertificate ::
  "openssl \<Rightarrow> string option \<Rightarrow> string option \<Rightarrow> process \<Rightarrow> error + process" where
  "loadCertificate L path format p =
     (case (path, format) of
        (Some path', Some format') \<Rightarrow>
          (if format' = ''PEM'' then
             (case SSL_CTX_use_certificate_chain_file L (ctx_' (self p)) path' of
                None \<Rightarrow>
                  Inl (runtime_error (''SSL_CTX_use_certificate_chain_file: '' @ path' @ '': ''))
              | Some ctx \<Rightarrow> Inr (set_ctx p ctx))
           else Inl (runtime_error (''Unsupported certificate format: '' @ format')))
      | _ \<Rightarrow>
          Inl (invalid_argument ''loadCertificateChain: either <path> or <format> is nullptr''))"

definition kMaxCertChain :: nat where
  "kMaxCertChain = 64"

text \<open>
  The \<^verbatim>\<open>for\<close> loop of \<^verbatim>\<open>loadCertificateFromBufferPEM\<close> together with the \<^verbatim>\<open>throw\<close> that
  follows it, from the loop index \<open>i\<close> and the bytes pending in the BIO.
\<close>

function chain_loop :: "openssl \<Rightarrow> nat \<Rightarrow> string \<Rightarrow> process \<Rightarrow> error + process" where
  "chain_loop L i bio p =
     (if i < kMaxCertChain then
        (case PEM_read_bio_X509 L bio of
           Inl errs \<Rightarrow> Inr (ERR_clear_error (p\<lparr>ERR_queue := ERR_queue p @ errs\<rparr>))
         | Inr (x509, bio') \<Rightarrow>
             (case SSL_CTX_add1_chain_cert L (ctx_' (self p)) x509 of
                None \<Rightarrow> Inl (runtime_error ''SSL_CTX_add0_chain_cert: '')
              | Some ctx \<Rightarrow> chain_loop L (i + 1) bio' (set_ctx p ctx)))
      else Inl (runtime_error ''loadCertificateFromBufferPEM(): Too many certificates in chain''))"
  by pat_completeness auto
termination
  by (relation "measure (\<lambda>(L, i, bio, p). kMaxCertChain - i)") auto

declare chain_loop.simps [simp del]

text \<open>
  \<^verbatim>\<open>void loadCertificateFromBufferPEM(folly::StringPiece cert)\<close>; \<open>None\<close> is a piece whose
  \<^verbatim>\<open>data()\<close> is null.
\<close>

definition loadCertificateFromBufferPEM ::
  "openssl \<Rightarrow> string option \<Rightarrow> process \<Rightarrow> error + process" where
  "loadCertificateFromBufferPEM L cert p =
     (case cert of
        None \<Rightarrow> Inl (invalid_argument ''loadCertificate: <cert> is nullptr'')
      | Some buf \<Rightarrow>
          if \<not> BIO_new L then Inl (runtime_error ''BIO_new: '')
          else if BIO_write L buf \<le> 0 \<or> BIO_write L buf \<noteq> int (length buf)
          then Inl (runtime_error ''BIO_write: '')
          else
            (case PEM_read_bio_X509 L buf of
               Inl errs \<Rightarrow> Inl (runtime_error ''PEM_read_bio_X509: '')
             | Inr (x509, bio) \<Rightarrow>
                 (case SSL_CTX_use_certificate L (ctx_' (self p)) x509 of
                    None \<Rightarrow> Inl (runtime_error ''SSL_CTX_use_certificate: '')
                  | Some ctx \<Rightarrow> chain_loop L 0 bio (set_ctx p ctx))))"

text \<open>\<^verbatim>\<open>void loadPrivateKey(const char* path, const char* format)\<close>\<close>

definition loadPrivateKey ::
  "openssl \<Rightarrow> string option \<Rightarrow> string option \<Rightarrow> process \<Rightarrow> error + process" where
  "loadPrivateKey L path format p =
     (case (path, format) of
        (Some path', Some format') \<Rightarrow>
          (if format' = ''PEM'' then
             (case SSL_CTX_use_PrivateKey_file L (ctx_' (self p)) path' of
                None \<Rightarrow> Inl (runtime_error ''SSL_CTX_use_PrivateKey_file: '')
              | Some ctx \<Rightarrow> Inr (set_ctx p ctx))
           else Inl (runtime_error (''Unsupported private key format: '' @ format')))
      | _ \<Rightarrow> Inl (invalid_argument ''loadPrivateKey: either <path> or <format> is nullptr''))"

text \<open>\<^verbatim>\<open>void loadPrivateKeyFromBufferPEM(folly::StringPiece pkey)\<close>\<close>

definition loadPrivateKeyFromBufferPEM ::
  "openssl \<Rightarrow> string option \<Rightarrow> process \<Rightarrow> error + process" where
  "loadPrivateKeyFromBufferPEM L pkey p =
     (case pkey of
        None \<Rightarrow> Inl (invalid_argument ''loadPrivateKey: <pkey> is nullptr'')
      | Some buf \<Rightarrow>
          if \<not> BIO_new L then Inl (runtime_error ''BIO_new: '')
          else if BIO_write L buf \<le> 0 \<or> BIO_write L buf \<noteq> int (length buf)
          then Inl (runtime_error ''BIO_write: '')
          else
            (case PEM_read_bio_PrivateKey L buf of
               None \<Rightarrow> Inl (runtime_error ''PEM_read_bio_PrivateKey: '')
             | Some key \<Rightarrow>
                 (case SSL_CTX_use_PrivateKey L (ctx_' (self p)) key of
                    None \<Rightarrow> Inl (runtime_error ''SSL_CTX_use_PrivateKey: '')
                  | Some ctx \<Rightarrow> Inr (set_ctx p ctx))))"

text \<open>\<^verbatim>\<open>bool isCertKeyPairValid() const\<close>\<close>

definition isCertKeyPairValid :: "openssl \<Rightarrow> SSLContext \<Rightarrow> bool" where
  "isCertKeyPairValid L c = (SSL_CTX_check_private_key L (ctx_' c) = 1)"

text \<open>\<^verbatim>\<open>void loadCertKeyPairFromBufferPEM(folly::StringPiece cert, folly::StringPiece pkey)\<close>\<close>

definition loadCertKeyPairFromBufferPEM ::
  "openssl \<Rightarrow> string option \<Rightarrow> string option \<Rightarrow> process \<Rightarrow> error + process" where
  "loadCertKeyPairFromBufferPEM L cert pkey p =
     (case loadCertificateFromBufferPEM L cert p of
        Inl e \<Rightarrow> Inl e
      | Inr p1 \<Rightarrow>
          (case loadPrivateKeyFromBufferPEM L pkey p1 of
             Inl e \<Rightarrow> Inl e
           | Inr p2 \<Rightarrow>
               if \<not> isCertKeyPairValid L (self p2)
               then Inl (runtime_error ''SSL certificate and private key do not match'')
               else Inr p2))"

text \<open>\<^verbatim>\<open>void loadCertKeyPairFromFiles(certPath, keyPath, certFormat, keyFormat)\<close>\<close>

definition loadCertKeyPairFromFiles ::
  "openssl \<Rightarrow> string option \<Rightarrow> string option \<Rightarrow> string option \<Rightarrow> string option \<Rightarrow>
   process \<Rightarrow> error + process" where
  "loadCertKeyPairFromFiles L certPath keyPath certFormat keyFormat p =
     (case loadCertificate L certPath certFormat p of
        Inl e \<Rightarrow> Inl e
      | Inr p1 \<Rightarrow>
          (case loadPrivateKey L keyPath keyFormat p1 of
             Inl e \<Rightarrow> Inl e
           | Inr p2 \<Rightarrow>
               if \<not> isCertKeyPairValid L (self p2)
               then Inl (runtime_error ''SSL certificate and private key do not match'')
               else Inr p2))"

text \<open>\<^verbatim>\<open>void loadTrustedCertificates(const char* path)\<close>\<close>

definition loadTrustedCertificates :: "openssl \<Rightarrow> string option \<Rightarrow> process \<Rightarrow> error + process" where
  "loadTrustedCertificates L path p =
     (case path of
        None \<Rightarrow> Inl (invalid_argument ''loadTrustedCertificates: <path> is nullptr'')
      | Some path' \<Rightarrow>
          (case SSL_CTX_load_verify_locations L (ctx_' (self p)) path' of
             None \<Rightarrow> Inl (runtime_error ''SSL_CTX_load_verify_locations: '')
           | Some ctx \<Rightarrow> Inr (ERR_clear_error (set_ctx p ctx))))"

text \<open>
  \<^verbatim>\<open>void loadClientCAList(const char* path)\<close>. The source hands \<^verbatim>\<open>path\<close> to the library
  and to the log stream without a null test, so the model takes a string. The
  \<^verbatim>\<open>getErrors()\<close> it streams into the log line empties the error queue.
\<close>

definition loadClientCAList :: "openssl \<Rightarrow> string \<Rightarrow> process \<Rightarrow> error + process" where
  "loadClientCAList L path p =
     (case SSL_load_client_CA_file L path of
        None \<Rightarrow>
          Inr (p\<lparr>ERR_queue := [],
                 glog := glog p @ [(ERROR, ''Unable to load ca file: '' @ path @ '' '')]\<rparr>)
      | Some clientCAs \<Rightarrow>
          Inr (set_ctx p (SSL_CTX_set_client_CA_list (ctx_' (self p)) clientCAs)))"

section \<open>Protocol advertisement\<close>

text \<open>
  \<^verbatim>\<open>void deleteNextProtocolsStrings()\<close>: the buffers are freed and both vectors cleared.
\<close>

definition deleteNextProtocolsStrings :: "SSLContext \<Rightarrow> SSLContext" where
  "deleteNextProtocolsStrings c =
     c\<lparr>advertisedNextProtocols_' := [], advertisedNextProtocolWeights_' := []\<rparr>"

text \<open>\<^verbatim>\<open>void unsetNextProtocols()\<close>\<close>

definition unsetNextProtocols :: "openssl \<Rightarrow> process \<Rightarrow> process" where
  "unsetNextProtocols L p =
     (let c = deleteNextProtocolsStrings (self p);
          ctx1 = SSL_CTX_set_alpn_select_cb (ctx_' c) None;
          ctx2 = snd (SSL_CTX_set_alpn_protos L ctx1 None)
      in ERR_clear_error (p\<lparr>self := c\<lparr>ctx_' := ctx2\<rparr>\<rparr>))"

text \<open>
  The first inner loop of \<^verbatim>\<open>setRandomizedAdvertisedNextProtocols\<close>: the wire length of
  one group, from the length counted so far; \<open>None\<close> when a name of 256 bytes or more
  is met. The count is kept as a natural number (the source's \<^verbatim>\<open>unsigned\<close> does not
  wrap below 4 GiB of names).
\<close>

fun advertised_length :: "string list \<Rightarrow> nat \<Rightarrow> nat option" where
  "advertised_length [] len = Some len"
| "advertised_length (proto # rest) len =
     (let protoLength = length proto in
      if protoLength \<ge> 256 then None
      else advertised_length rest (len + 1 + protoLength))"

text \<open>
  The second inner loop: each name as one length byte (\<^verbatim>\<open>uint8_t(proto.length())\<close>)
  followed by that many of its bytes.
\<close>

fun advertised_bytes :: "string list \<Rightarrow> string" where
  "advertised_bytes [] = []"
| "advertised_bytes (proto # rest) =
     (let protoLength = length proto mod 256 in
      char_of protoLength # take protoLength proto @ advertised_bytes rest)"

text \<open>
  The loop over the groups, from the running \<^verbatim>\<open>total_weight\<close>: \<open>Inl\<close> is the
  \<^verbatim>\<open>return false\<close> inside the loop, \<open>Inr\<close> the state when the loop ends. The
  \<^verbatim>\<open>throw\<close> after \<^verbatim>\<open>new unsigned char[...]\<close> guards a null result, which the throwing
  \<^verbatim>\<open>operator new[]\<close> never gives, so it has no branch here.
\<close>

fun advertise_items ::
  "NextProtocolsItem list \<Rightarrow> 32 word \<Rightarrow> SSLContext \<Rightarrow> SSLContext + (32 word \<times> SSLContext)" where
  "advertise_items [] total_weight c = Inr (total_weight, c)"
| "advertise_items (item # rest) total_weight c =
     (if protocols item = [] then advertise_items rest total_weight c
      else
        (case advertised_length (protocols item) 0 of
           None \<Rightarrow> Inl (deleteNextProtocolsStrings c)
         | Some len \<Rightarrow>
             advertise_items rest (total_weight + weight item)
               (c\<lparr>advertisedNextProtocols_' := advertisedNextProtocols_' c @
                     [\<lparr>adv_protocols = advertised_bytes (protocols item), adv_length = len\<rparr>],
                   advertisedNextProtocolWeights_' :=
                     advertisedNextProtocolWeights_' c @ [weight item]\<rparr>)))"

text \<open>
  \<^verbatim>\<open>bool setRandomizedAdvertisedNextProtocols(const std::list<NextProtocolsItem>& items)\<close>.
  The random distribution built from the weights is not part of the state modelled.
  When the total weight is not 0 a group was kept, so the empty case of the last
  \<open>case\<close> is never taken (lemma \<open>advertise_items_kept\<close>).
\<close>

definition setRandomizedAdvertisedNextProtocols ::
  "openssl \<Rightarrow> NextProtocolsItem list \<Rightarrow> process \<Rightarrow> bool \<times> process" where
  "setRandomizedAdvertisedNextProtocols L items p =
     (let p1 = unsetNextProtocols L p in
      if items = [] then (False, p1)
      else
        (case advertise_items items 0 (self p1) of
           Inl c \<Rightarrow> (False, p1\<lparr>self := c\<rparr>)
         | Inr (total_weight, c) \<Rightarrow>
             if total_weight = 0 then (False, p1\<lparr>self := deleteNextProtocolsStrings c\<rparr>)
             else
               (case advertisedNextProtocols_' c of
                  [] \<Rightarrow> (False, p1\<lparr>self := c\<rparr>)
                | first # _ \<Rightarrow>
                    (let ctx1 = SSL_CTX_set_alpn_select_cb (ctx_' c) (Some alpnSelectCallback);
                         r = SSL_CTX_set_alpn_protos L ctx1
                               (Some (take (adv_length first) (adv_protocols first)))
                     in (fst r = 0, p1\<lparr>self := c\<lparr>ctx_' := snd r\<rparr>\<rparr>)))))"

text \<open>\<^verbatim>\<open>bool setAdvertisedNextProtocols(const std::list<std::string>& protocols)\<close>\<close>

definition setAdvertisedNextProtocols ::
  "openssl \<Rightarrow> string list \<Rightarrow> process \<Rightarrow> bool \<times> process" where
  "setAdvertisedNextProtocols L names p =
     setRandomizedAdvertisedNextProtocols L [\<lparr>weight = 1, protocols = names\<rparr>] p"

text \<open>
  The loop of \<^verbatim>\<open>getAdvertisedNextProtocols\<close>: every length byte after the first becomes
  a comma.
\<close>

function comma_loop :: "string \<Rightarrow> nat \<Rightarrow> string" where
  "comma_loop alpns i =
     (if i < length alpns
      then comma_loop (alpns[i := CHR '',''])
             (i + (of_char (alpns ! i) :: nat) + 1)
      else alpns)"
  by pat_completeness auto
termination
  by (relation "measure (\<lambda>(alpns, i). length alpns - i)") auto

declare comma_loop.simps [simp del]

text \<open>
  \<^verbatim>\<open>std::string getAdvertisedNextProtocols()\<close>. A buffer in the table is never empty
  (a group is kept only with a name in it); the source would read past an empty one,
  the model gives the empty string there.
\<close>

definition getAdvertisedNextProtocols :: "SSLContext \<Rightarrow> string" where
  "getAdvertisedNextProtocols c =
     (case advertisedNextProtocols_' c of
        [] \<Rightarrow> ''''
      | first # _ \<Rightarrow>
          (case adv_protocols first of
             [] \<Rightarrow> ''''
           | len # bytes \<Rightarrow>
               comma_loop (take (adv_length first - 1) bytes) (of_char len)))"

section \<open>The vocabulary of the statements\<close>

text \<open>
  The definitions of this section are not translations of the source. They say, in the
  words of the specification, what the functions above are compared with.
\<close>

subsection \<open>The mode tables\<close>

text \<open>
  ALWAYS is PEER | FAIL_IF_NO_PEER_CERT, IF_PRESENTED is PEER, VERIFY is PEER,
  VERIFY_REQ_CLIENT_CERT is PEER | FAIL_IF_NO_PEER_CERT, and NO_VERIFY, DO_NOT_REQUEST and
  IGNORE_VERIFY_RESULT are no bits. The table has no row for USE_CTX; \<open>legacy_bits\<close>
  is 0 there.
\<close>

fun client_bits :: "VerifyClientCertificate \<Rightarrow> int" where
  "client_bits Client_ALWAYS = SSL_VERIFY_PEER OR SSL_VERIFY_FAIL_IF_NO_PEER_CERT"
| "client_bits Client_IF_PRESENTED = SSL_VERIFY_PEER"
| "client_bits Client_DO_NOT_REQUEST = 0"

fun server_bits :: "VerifyServerCertificate \<Rightarrow> int" where
  "server_bits Server_IF_PRESENTED = SSL_VERIFY_PEER"
| "server_bits Server_IGNORE_VERIFY_RESULT = 0"

fun legacy_bits :: "SSLVerifyPeerEnum \<Rightarrow> int" where
  "legacy_bits VERIFY = SSL_VERIFY_PEER"
| "legacy_bits VERIFY_REQ_CLIENT_CERT = SSL_VERIFY_PEER OR SSL_VERIFY_FAIL_IF_NO_PEER_CERT"
| "legacy_bits NO_VERIFY = 0"
| "legacy_bits USE_CTX = 0"

subsection \<open>Wildcard patterns\<close>

text \<open>
  \<open>wildcard_match pattern host\<close>: the pattern consumes exactly the whole host, where a
  \<open>*\<close> of the pattern stands for zero or more characters of the host, none of them
  a dot, and any other character of the pattern stands for one character of the host
  equal to it up to case.
\<close>

fun wildcard_match :: "string \<Rightarrow> string \<Rightarrow> bool" where
  "wildcard_match [] host = (host = [])"
| "wildcard_match (p # ps) [] = (p = CHR ''*'' \<and> wildcard_match ps [])"
| "wildcard_match (p # ps) (c # cs) =
     (if p = CHR ''*''
      then wildcard_match ps (c # cs) \<or> (c \<noteq> CHR ''.'' \<and> wildcard_match (p # ps) cs)
      else toupper p = toupper c \<and> wildcard_match ps cs)"

text \<open>
  \<open>greedy_match pattern host\<close>: one pass from left to right with no way back. A
  character of the pattern that equals the next character of the host up to case takes
  that one character (also when both are \<open>*\<close>); otherwise a \<open>*\<close> facing a
  character of the host takes the host up to its next dot or its end; anything else,
  and a pattern with characters left when the host has run out, fails.
\<close>

fun greedy_match :: "string \<Rightarrow> string \<Rightarrow> bool" where
  "greedy_match [] host = (host = [])"
| "greedy_match (p # ps) [] = False"
| "greedy_match (p # ps) (c # cs) =
     (if toupper p = toupper c then greedy_match ps cs
      else if p = CHR ''*'' then greedy_match ps (dropWhile (\<lambda>d. d \<noteq> CHR ''.'') (c # cs))
      else False)"

text \<open>
  \<open>stars_before_dots pattern\<close>: every \<open>*\<close> of the pattern is directly followed by a
  dot, as in \<open>*.example.com\<close>.
\<close>

fun stars_before_dots :: "string \<Rightarrow> bool" where
  "stars_before_dots [] = True"
| "stars_before_dots [p] = (p \<noteq> CHR ''*'')"
| "stars_before_dots (p # q # ps) =
     ((p \<noteq> CHR ''*'' \<or> q = CHR ''.'') \<and> stars_before_dots (q # ps))"

subsection \<open>PEM buffers\<close>

text \<open>
  \<open>holds_certificates L bio n\<close>: the library reads exactly \<open>n\<close> certificates from the
  bytes \<open>bio\<close>, one after the other, and then finds no further PEM block.
\<close>

fun holds_certificates :: "openssl \<Rightarrow> string \<Rightarrow> nat \<Rightarrow> bool" where
  "holds_certificates L bio 0 =
     (case PEM_read_bio_X509 L bio of Inl errs \<Rightarrow> True | Inr r \<Rightarrow> False)"
| "holds_certificates L bio (Suc n) =
     (case PEM_read_bio_X509 L bio of
        Inl errs \<Rightarrow> False
      | Inr r \<Rightarrow> holds_certificates L (snd r) n)"

text \<open>The library takes every certificate it is handed.\<close>

definition accepts_certificates :: "openssl \<Rightarrow> bool" where
  "accepts_certificates L =
     ((\<forall>ctx x. SSL_CTX_use_certificate L ctx x \<noteq> None) \<and>
      (\<forall>ctx x. SSL_CTX_add1_chain_cert L ctx x \<noteq> None))"

text \<open>A memory BIO can be made and takes the whole of a buffer that is not empty.\<close>

definition bio_takes :: "openssl \<Rightarrow> string \<Rightarrow> bool" where
  "bio_takes L buf = (BIO_new L \<and> buf \<noteq> [] \<and> BIO_write L buf = int (length buf))"

subsection \<open>Advertisement\<close>

text \<open>The total weight of the groups that are kept, those with a name in them.\<close>

definition kept_weight :: "NextProtocolsItem list \<Rightarrow> 32 word" where
  "kept_weight items = sum_list (map weight (filter (\<lambda>item. protocols item \<noteq> []) items))"

text \<open>Some name of some group has 256 bytes or more.\<close>

definition has_long_name :: "NextProtocolsItem list \<Rightarrow> bool" where
  "has_long_name items = list_ex (\<lambda>item. list_ex (\<lambda>proto. 256 \<le> length proto) (protocols item)) items"

text \<open>
  Negotiation is disabled: no buffer and no weight is held, no selection callback is
  registered and no primary offer is published.
\<close>

definition alpn_disabled :: "SSLContext \<Rightarrow> bool" where
  "alpn_disabled c =
     (advertisedNextProtocols_' c = [] \<and> advertisedNextProtocolWeights_' c = [] \<and>
      alpn_select_cb (ctx_' c) = None \<and> alpn_protos (ctx_' c) = [])"

section \<open>A sample library\<close>

text \<open>
  A small library to run the functions on: in a PEM buffer every byte is one block, a
  block holds the certificate or key numbered by its byte, and the end of the buffer
  is the only read that fails (with one error code queued). A file path stands for the
  credential numbered by its length; the path \<open>missing\<close> cannot be read. Every
  certificate and key is taken, a key matches the certificate of the same number, and
  every protocol list is accepted.
\<close>

definition sample_check :: "SSL_CTX \<Rightarrow> int" where
  "sample_check ctx =
     (case (certificate ctx, private_key ctx) of
        (Some (X509 a), Some (EVP_PKEY b)) \<Rightarrow> (if a = b then 1 else 0)
      | _ \<Rightarrow> 0)"

definition sample_openssl :: openssl where
  "sample_openssl =
     \<lparr>SSL_CTX_new = Some \<lparr>certificate = None, extra_chain = [], private_key = None,
                           verify_locations = [], client_CA_list = [],
                           alpn_select_cb = None, alpn_protos = []\<rparr>,
      SSL_CTX_up_ref = (\<lambda>ctx. 1),
      BIO_new = True,
      BIO_write = (\<lambda>buf. int (length buf)),
      PEM_read_bio_X509 =
        (\<lambda>bio. case bio of [] \<Rightarrow> Inl [108] | b # rest \<Rightarrow> Inr (X509 (of_char b), rest)),
      PEM_read_bio_PrivateKey =
        (\<lambda>bio. case bio of [] \<Rightarrow> None | b # rest \<Rightarrow> Some (EVP_PKEY (of_char b))),
      SSL_CTX_use_certificate = (\<lambda>ctx x. Some (ctx\<lparr>certificate := Some x\<rparr>)),
      SSL_CTX_add1_chain_cert = (\<lambda>ctx x. Some (ctx\<lparr>extra_chain := extra_chain ctx @ [x]\<rparr>)),
      SSL_CTX_use_PrivateKey = (\<lambda>ctx k. Some (ctx\<lparr>private_key := Some k\<rparr>)),
      SSL_CTX_use_certificate_chain_file =
        (\<lambda>ctx path. if path = ''missing'' then None
                     else Some (ctx\<lparr>certificate := Some (X509 (length path))\<rparr>)),
      SSL_CTX_use_PrivateKey_file =
        (\<lambda>ctx path. if path = ''missing'' then None
                     else Some (ctx\<lparr>private_key := Some (EVP_PKEY (length path))\<rparr>)),
      SSL_CTX_check_private_key = sample_check,
      SSL_CTX_load_verify_locations =
        (\<lambda>ctx path. if path = ''missing'' then None
                     else Some (ctx\<lparr>verify_locations := verify_locations ctx @ [path]\<rparr>)),
      SSL_load_client_CA_file = (\<lambda>path. if path = ''missing'' then None else Some [path]),
      SSL_CTX_set_alpn_protos_result = (\<lambda>buf. 0)\<rparr>"

definition sample_ctx :: SSL_CTX where
  "sample_ctx =
     \<lparr>certificate = None, extra_chain = [], private_key = None, verify_locations = [],
      client_CA_list = [], alpn_select_cb = None, alpn_protos = []\<rparr>"

definition sample_process :: process where
  "sample_process =
     \<lparr>self = (member_defaults sample_ctx)\<lparr>sslAcceptRunner_' := Some BaseRunner\<rparr>,
      ERR_queue = [], glog = []\<rparr>"

chapter \<open>Properties\<close>

section \<open>Verification mode\<close>

lemma client_bits_code: "getVerificationMode_client v = client_bits v"
  by (cases v) (simp_all add: SSL_VERIFY_NONE_def)

lemma server_bits_code: "getVerificationMode_server v = server_bits v"
  by (cases v) (simp_all add: SSL_VERIFY_NONE_def)

lemma legacy_bits_code: "v \<noteq> USE_CTX \<Longrightarrow> getVerificationMode_peer v = Inr (legacy_bits v)"
  by (cases v) (simp_all add: getVerificationMode_peer_def SSL_VERIFY_NONE_def)

text \<open>
  Claim C1. For a context whose stored legacy enumeration is not USE_CTX, whatever the
  three stored policies are, \<open>getVerificationMode\<close> returns the bitwise or of the three
  modes of the specification's tables, each static resolution returns its table entry
  (so NO_VERIFY, DO_NOT_REQUEST and IGNORE_VERIFY_RESULT give no bits), and
  \<open>needsPeerVerification\<close> is true exactly when that combined mode is not 0.
\<close>

theorem getVerificationMode_is_or_of_tables:
  assumes "verifyPeer_' c \<noteq> USE_CTX"
  shows "getVerificationMode c =
           Inr (client_bits (verifyClient_' c) OR server_bits (verifyServer_' c) OR
                legacy_bits (verifyPeer_' c)) \<and>
         getVerificationMode_client (verifyClient_' c) = client_bits (verifyClient_' c) \<and>
         getVerificationMode_server (verifyServer_' c) = server_bits (verifyServer_' c) \<and>
         getVerificationMode_peer (verifyPeer_' c) = Inr (legacy_bits (verifyPeer_' c)) \<and>
         getVerificationMode_client Client_DO_NOT_REQUEST = 0 \<and>
         getVerificationMode_server Server_IGNORE_VERIFY_RESULT = 0 \<and>
         getVerificationMode_peer NO_VERIFY = Inr 0 \<and>
         needsPeerVerification c =
           Inr (client_bits (verifyClient_' c) OR server_bits (verifyServer_' c) OR
                legacy_bits (verifyPeer_' c) \<noteq> 0)"
proof -
  have peer: "getVerificationMode_peer (verifyPeer_' c) = Inr (legacy_bits (verifyPeer_' c))"
    using assms by (rule legacy_bits_code)
  have mode: "getVerificationMode c =
      Inr (client_bits (verifyClient_' c) OR server_bits (verifyServer_' c) OR
           legacy_bits (verifyPeer_' c))"
    by (simp add: getVerificationMode_def peer client_bits_code server_bits_code)
  have needs: "needsPeerVerification c =
      Inr (client_bits (verifyClient_' c) OR server_bits (verifyServer_' c) OR
           legacy_bits (verifyPeer_' c) \<noteq> 0)"
    by (simp add: needsPeerVerification_def mode SSL_VERIFY_NONE_def)
  have zero: "getVerificationMode_client Client_DO_NOT_REQUEST = 0"
    "getVerificationMode_server Server_IGNORE_VERIFY_RESULT = 0"
    "getVerificationMode_peer NO_VERIFY = Inr 0"
    by (simp_all add: getVerificationMode_peer_def SSL_VERIFY_NONE_def)
  show ?thesis
    using peer mode needs zero by (simp add: client_bits_code server_bits_code)
qed

theorem getVerificationMode_is_or_of_tables_witness:
  "getVerificationMode
     ((member_defaults sample_ctx)\<lparr>verifyPeer_' := VERIFY, verifyClient_' := Client_ALWAYS\<rparr>) = Inr 3 \<and>
   needsPeerVerification
     ((member_defaults sample_ctx)\<lparr>verifyPeer_' := VERIFY, verifyClient_' := Client_ALWAYS\<rparr>) = Inr True \<and>
   getVerificationMode (member_defaults sample_ctx) = Inr 0 \<and>
   needsPeerVerification (member_defaults sample_ctx) = Inr False"
  using getVerificationMode_is_or_of_tables
      [of "(member_defaults sample_ctx)\<lparr>verifyPeer_' := VERIFY, verifyClient_' := Client_ALWAYS\<rparr>"]
    getVerificationMode_is_or_of_tables [of "member_defaults sample_ctx"]
  by (simp add: member_defaults_def SSL_VERIFY_PEER_def SSL_VERIFY_FAIL_IF_NO_PEER_CERT_def)

text \<open>
  Claim C7, as the code has it. Passed USE_CTX, the static \<open>getVerificationMode\<close> of the
  legacy enumeration and the setter \<open>setVerificationOption\<close> both fail the glog check
  \<^verbatim>\<open>CHECK(verifyPeer != SSLVerifyPeerEnum::USE_CTX)\<close>, which aborts the process: no mode
  is resolved, nothing is stored.
\<close>

theorem use_ctx_fails_the_check:
  "getVerificationMode_peer USE_CTX =
     Inl (check_failed ''verifyPeer != SSLVerifyPeerEnum::USE_CTX'') \<and>
   setVerificationOption_peer USE_CTX c =
     Inl (check_failed ''verifyPeer != SSLVerifyPeerEnum::USE_CTX'')"
  by (simp add: getVerificationMode_peer_def setVerificationOption_peer_def)

text \<open>
  Claim C7 as stated fails: the failure is not an invalid-argument exception, for
  neither function.
\<close>

theorem use_ctx_is_no_invalid_argument:
  "\<not> (\<exists>m. getVerificationMode_peer USE_CTX = Inl (invalid_argument m)) \<and>
   \<not> (\<exists>m. setVerificationOption_peer USE_CTX (member_defaults sample_ctx) =
            Inl (invalid_argument m))"
  by (simp add: getVerificationMode_peer_def setVerificationOption_peer_def)

section \<open>The accept runner\<close>

text \<open>
  A context made from a protocol version holds a runner, and the setter never puts the
  null pointer into the slot.
\<close>

lemma from_version_has_runner:
  "SSLContext_from_version L version = Inr c \<Longrightarrow> sslAcceptRunner c \<noteq> None"
  by (auto simp: SSLContext_from_version_def sslAcceptRunner_def
      split: if_splits option.splits)

lemma setter_keeps_runner:
  "sslAcceptRunner (self p) \<noteq> None \<Longrightarrow>
   sslAcceptRunner (self (sslAcceptRunner_set runner p)) \<noteq> None"
  by (cases runner) (simp_all add: sslAcceptRunner_set_def sslAcceptRunner_def)

lemma setter_null_logs_and_keeps:
  "sslAcceptRunner_set None p = p\<lparr>glog := glog p @ [(ERROR, ''Ignore invalid runner'')]\<rparr>"
  by (simp add: sslAcceptRunner_set_def)

text \<open>
  Claim C10 fails on the second constructor. \<^verbatim>\<open>SSLContext(SSL_CTX* ctx)\<close> installs no
  runner: a context that wraps a native handle returns the null pointer from
  \<open>sslAcceptRunner\<close>, and still does after \<open>sslAcceptRunner(nullptr)\<close>.
\<close>

theorem wrapped_context_runner_is_null:
  "SSLContext_from_ctx sample_openssl sample_ctx = Inr (member_defaults sample_ctx) \<and>
   sslAcceptRunner (member_defaults sample_ctx) = None \<and>
   sslAcceptRunner
     (self (sslAcceptRunner_set None
        \<lparr>self = member_defaults sample_ctx, ERR_queue = [], glog = []\<rparr>)) = None"
  by (simp add: SSLContext_from_ctx_def sample_openssl_def sslAcceptRunner_def
      member_defaults_def sslAcceptRunner_set_def)

section \<open>Credential loading\<close>

lemma chain_loop_errors:
  "chain_loop L i bio p = Inl e \<Longrightarrow>
   e = runtime_error ''SSL_CTX_add0_chain_cert: '' \<or>
   e = runtime_error ''loadCertificateFromBufferPEM(): Too many certificates in chain''"
proof (induction L i bio p rule: chain_loop.induct)
  case (1 L i bio p)
  note unfold = chain_loop.simps [of L i bio p]
  show ?case
  proof (cases "i < kMaxCertChain")
    case False
    with "1.prems" unfold show ?thesis by simp
  next
    case True
    show ?thesis
    proof (cases "PEM_read_bio_X509 L bio")
      case (Inl errs)
      with True "1.prems" unfold show ?thesis by simp
    next
      case (Inr r)
      obtain x bio' where r: "r = (x, bio')" by (cases r)
      show ?thesis
      proof (cases "SSL_CTX_add1_chain_cert L (ctx_' (self p)) x")
        case None
        with True Inr r "1.prems" unfold show ?thesis by simp
      next
        case (Some ctx)
        with True Inr r "1.prems" unfold
        have "chain_loop L (i + 1) bio' (set_ctx p ctx) = Inl e" by simp
        with "1.IH" [OF True Inr r [symmetric] Some] show ?thesis by simp
      qed
    qed
  qed
qed

lemma loadCertificateFromBufferPEM_no_mismatch:
  "loadCertificateFromBufferPEM L cert p \<noteq>
   Inl (runtime_error ''SSL certificate and private key do not match'')"
proof
  assume a: "loadCertificateFromBufferPEM L cert p =
    Inl (runtime_error ''SSL certificate and private key do not match'')"
  then show False
    by (auto simp: loadCertificateFromBufferPEM_def
        split: option.splits if_splits sum.splits prod.splits dest: chain_loop_errors)
qed

lemma loadPrivateKeyFromBufferPEM_no_mismatch:
  "loadPrivateKeyFromBufferPEM L pkey p \<noteq>
   Inl (runtime_error ''SSL certificate and private key do not match'')"
  by (simp add: loadPrivateKeyFromBufferPEM_def split: option.splits)

lemma loadCertificate_no_mismatch:
  "loadCertificate L path format p \<noteq>
   Inl (runtime_error ''SSL certificate and private key do not match'')"
  by (simp add: loadCertificate_def split: option.splits)

lemma loadPrivateKey_no_mismatch:
  "loadPrivateKey L path format p \<noteq>
   Inl (runtime_error ''SSL certificate and private key do not match'')"
  by (simp add: loadPrivateKey_def split: option.splits)

lemma pair_from_buffers:
  "loadCertificateFromBufferPEM L cert p = Inr p1 \<Longrightarrow>
   loadPrivateKeyFromBufferPEM L pkey p1 = Inr p2 \<Longrightarrow>
   loadCertKeyPairFromBufferPEM L cert pkey p =
     (if SSL_CTX_check_private_key L (ctx_' (self p2)) = 1 then Inr p2
      else Inl (runtime_error ''SSL certificate and private key do not match''))"
  by (simp add: loadCertKeyPairFromBufferPEM_def isCertKeyPairValid_def)

lemma pair_from_files:
  "loadCertificate L certPath certFormat p = Inr p1 \<Longrightarrow>
   loadPrivateKey L keyPath keyFormat p1 = Inr p2 \<Longrightarrow>
   loadCertKeyPairFromFiles L certPath keyPath certFormat keyFormat p =
     (if SSL_CTX_check_private_key L (ctx_' (self p2)) = 1 then Inr p2
      else Inl (runtime_error ''SSL certificate and private key do not match''))"
  by (simp add: loadCertKeyPairFromFiles_def isCertKeyPairValid_def)

lemma pair_from_buffers_returns:
  "loadCertKeyPairFromBufferPEM L cert pkey p = Inr p' \<Longrightarrow> isCertKeyPairValid L (self p')"
  by (auto simp: loadCertKeyPairFromBufferPEM_def split: sum.splits if_splits)

lemma pair_from_files_returns:
  "loadCertKeyPairFromFiles L certPath keyPath certFormat keyFormat p = Inr p' \<Longrightarrow>
   isCertKeyPairValid L (self p')"
  by (auto simp: loadCertKeyPairFromFiles_def split: sum.splits if_splits)

lemma pair_from_buffers_mismatch:
  assumes "loadCertKeyPairFromBufferPEM L cert pkey p =
    Inl (runtime_error ''SSL certificate and private key do not match'')"
  shows "\<exists>p1 p2. loadCertificateFromBufferPEM L cert p = Inr p1 \<and>
    loadPrivateKeyFromBufferPEM L pkey p1 = Inr p2 \<and>
    SSL_CTX_check_private_key L (ctx_' (self p2)) \<noteq> 1"
proof (cases "loadCertificateFromBufferPEM L cert p")
  case (Inl e)
  with assms loadCertificateFromBufferPEM_no_mismatch [of L cert p] show ?thesis
    by (simp add: loadCertKeyPairFromBufferPEM_def)
next
  case (Inr p1)
  show ?thesis
  proof (cases "loadPrivateKeyFromBufferPEM L pkey p1")
    case (Inl e)
    with assms Inr loadPrivateKeyFromBufferPEM_no_mismatch [of L pkey p1] show ?thesis
      by (simp add: loadCertKeyPairFromBufferPEM_def)
  next
    case p2: (Inr p2)
    with assms Inr show ?thesis
      by (simp add: loadCertKeyPairFromBufferPEM_def isCertKeyPairValid_def split: if_splits)
  qed
qed

lemma pair_from_files_mismatch:
  assumes "loadCertKeyPairFromFiles L certPath keyPath certFormat keyFormat p =
    Inl (runtime_error ''SSL certificate and private key do not match'')"
  shows "\<exists>p1 p2. loadCertificate L certPath certFormat p = Inr p1 \<and>
    loadPrivateKey L keyPath keyFormat p1 = Inr p2 \<and>
    SSL_CTX_check_private_key L (ctx_' (self p2)) \<noteq> 1"
proof (cases "loadCertificate L certPath certFormat p")
  case (Inl e)
  with assms loadCertificate_no_mismatch [of L certPath certFormat p] show ?thesis
    by (simp add: loadCertKeyPairFromFiles_def)
next
  case (Inr p1)
  show ?thesis
  proof (cases "loadPrivateKey L keyPath keyFormat p1")
    case (Inl e)
    with assms Inr loadPrivateKey_no_mismatch [of L keyPath keyFormat p1] show ?thesis
      by (simp add: loadCertKeyPairFromFiles_def)
  next
    case p2: (Inr p2)
    with assms Inr show ?thesis
      by (simp add: loadCertKeyPairFromFiles_def isCertKeyPairValid_def split: if_splits)
  qed
qed

text \<open>
  Claim C4. Both pair loaders run the match check once the certificate and the key are
  loaded: when the two loads succeed the loader throws the mismatch error if
  \<^verbatim>\<open>SSL_CTX_check_private_key\<close> does not answer 1 and returns the loaded state if it
  does; a loader that returns has a valid pair; the mismatch error is thrown only
  after both loads succeeded and the check failed, so never for a matching pair.
  \<open>isCertKeyPairValid\<close> is true exactly when the check answers 1, and it never throws.
\<close>

theorem pair_loaders_check_the_match:
  "(loadCertificateFromBufferPEM L cert p = Inr p1 \<and>
    loadPrivateKeyFromBufferPEM L pkey p1 = Inr p2 \<longrightarrow>
      loadCertKeyPairFromBufferPEM L cert pkey p =
        (if SSL_CTX_check_private_key L (ctx_' (self p2)) = 1 then Inr p2
         else Inl (runtime_error ''SSL certificate and private key do not match''))) \<and>
   (loadCertKeyPairFromBufferPEM L cert pkey p = Inr p' \<longrightarrow> isCertKeyPairValid L (self p')) \<and>
   (loadCertKeyPairFromBufferPEM L cert pkey p =
      Inl (runtime_error ''SSL certificate and private key do not match'') \<longrightarrow>
      (\<exists>q1 q2. loadCertificateFromBufferPEM L cert p = Inr q1 \<and>
         loadPrivateKeyFromBufferPEM L pkey q1 = Inr q2 \<and>
         SSL_CTX_check_private_key L (ctx_' (self q2)) \<noteq> 1)) \<and>
   (loadCertificate L certPath certFormat p = Inr f1 \<and>
    loadPrivateKey L keyPath keyFormat f1 = Inr f2 \<longrightarrow>
      loadCertKeyPairFromFiles L certPath keyPath certFormat keyFormat p =
        (if SSL_CTX_check_private_key L (ctx_' (self f2)) = 1 then Inr f2
         else Inl (runtime_error ''SSL certificate and private key do not match''))) \<and>
   (loadCertKeyPairFromFiles L certPath keyPath certFormat keyFormat p = Inr f' \<longrightarrow>
      isCertKeyPairValid L (self f')) \<and>
   (loadCertKeyPairFromFiles L certPath keyPath certFormat keyFormat p =
      Inl (runtime_error ''SSL certificate and private key do not match'') \<longrightarrow>
      (\<exists>q1 q2. loadCertificate L certPath certFormat p = Inr q1 \<and>
         loadPrivateKey L keyPath keyFormat q1 = Inr q2 \<and>
         SSL_CTX_check_private_key L (ctx_' (self q2)) \<noteq> 1)) \<and>
   isCertKeyPairValid L c = (SSL_CTX_check_private_key L (ctx_' c) = 1)"
  using pair_from_buffers [of L cert p p1 pkey p2]
    pair_from_buffers_returns [of L cert pkey p p']
    pair_from_buffers_mismatch [of L cert pkey p]
    pair_from_files [of L certPath certFormat p f1 keyPath keyFormat f2]
    pair_from_files_returns [of L certPath keyPath certFormat keyFormat p f']
    pair_from_files_mismatch [of L certPath keyPath certFormat keyFormat p]
  by (simp add: isCertKeyPairValid_def)

theorem pair_loaders_check_the_match_witness:
  "(\<exists>p1 p2.
      loadCertificateFromBufferPEM sample_openssl (Some ''a'') sample_process = Inr p1 \<and>
      loadPrivateKeyFromBufferPEM sample_openssl (Some ''b'') p1 = Inr p2 \<and>
      SSL_CTX_check_private_key sample_openssl (ctx_' (self p2)) \<noteq> 1) \<and>
   loadCertKeyPairFromBufferPEM sample_openssl (Some ''a'') (Some ''b'') sample_process =
     Inl (runtime_error ''SSL certificate and private key do not match'') \<and>
   (\<exists>p'. loadCertKeyPairFromBufferPEM sample_openssl (Some ''a'') (Some ''a'')
            sample_process = Inr p' \<and>
          isCertKeyPairValid sample_openssl (self p')) \<and>
   loadCertKeyPairFromFiles sample_openssl (Some ''cert'') (Some ''mykey'') (Some ''PEM'')
     (Some ''PEM'') sample_process =
     Inl (runtime_error ''SSL certificate and private key do not match'')"
proof -
  let ?L = sample_openssl
  let ?p1 = "set_ctx sample_process (sample_ctx\<lparr>certificate := Some (X509 97)\<rparr>)"
  let ?p2 = "set_ctx sample_process
    (sample_ctx\<lparr>certificate := Some (X509 97), private_key := Some (EVP_PKEY 98)\<rparr>)"
  let ?ok = "set_ctx sample_process
    (sample_ctx\<lparr>certificate := Some (X509 97), private_key := Some (EVP_PKEY 97)\<rparr>)"
  let ?f1 = "set_ctx sample_process (sample_ctx\<lparr>certificate := Some (X509 4)\<rparr>)"
  let ?f2 = "set_ctx sample_process
    (sample_ctx\<lparr>certificate := Some (X509 4), private_key := Some (EVP_PKEY 5)\<rparr>)"
  have c: "loadCertificateFromBufferPEM ?L (Some ''a'') sample_process = Inr ?p1"
    by code_simp
  have k: "loadPrivateKeyFromBufferPEM ?L (Some ''b'') ?p1 = Inr ?p2"
    by code_simp
  have bad: "SSL_CTX_check_private_key ?L (ctx_' (self ?p2)) \<noteq> 1"
    by code_simp
  have ok: "loadCertKeyPairFromBufferPEM ?L (Some ''a'') (Some ''a'') sample_process = Inr ?ok"
    by code_simp
  have fc: "loadCertificate ?L (Some ''cert'') (Some ''PEM'') sample_process = Inr ?f1"
    by code_simp
  have fk: "loadPrivateKey ?L (Some ''mykey'') (Some ''PEM'') ?f1 = Inr ?f2"
    by code_simp
  have fbad: "SSL_CTX_check_private_key ?L (ctx_' (self ?f2)) \<noteq> 1"
    by code_simp
  note inst = pair_loaders_check_the_match
    [where L = ?L and cert = "Some ''a''" and p = sample_process and ?p1.0 = ?p1
       and pkey = "Some ''b''" and ?p2.0 = ?p2 and certPath = "Some ''cert''"
       and certFormat = "Some ''PEM''" and ?f1.0 = ?f1 and keyPath = "Some ''mykey''"
       and keyFormat = "Some ''PEM''" and ?f2.0 = ?f2]
  note inst_ok = pair_loaders_check_the_match
    [where L = ?L and cert = "Some ''a''" and p = sample_process and pkey = "Some ''a''"
       and p' = ?ok]
  have pair: "loadCertKeyPairFromBufferPEM ?L (Some ''a'') (Some ''b'') sample_process =
      Inl (runtime_error ''SSL certificate and private key do not match'')"
    using inst c k bad by simp
  have files: "loadCertKeyPairFromFiles ?L (Some ''cert'') (Some ''mykey'') (Some ''PEM'')
      (Some ''PEM'') sample_process =
      Inl (runtime_error ''SSL certificate and private key do not match'')"
    using inst fc fk fbad by simp
  have valid: "isCertKeyPairValid ?L (self ?ok)"
    using inst_ok ok by blast
  from c k bad have loads: "\<exists>p1 p2.
      loadCertificateFromBufferPEM ?L (Some ''a'') sample_process = Inr p1 \<and>
      loadPrivateKeyFromBufferPEM ?L (Some ''b'') p1 = Inr p2 \<and>
      SSL_CTX_check_private_key ?L (ctx_' (self p2)) \<noteq> 1"
    by blast
  from ok valid have good: "\<exists>p'. loadCertKeyPairFromBufferPEM ?L (Some ''a'') (Some ''a'')
      sample_process = Inr p' \<and> isCertKeyPairValid ?L (self p')"
    by blast
  from loads pair good files show ?thesis by blast
qed

text \<open>
  Claim C8. \<open>loadClientCAList\<close> returns for every path; when the library cannot load the
  file it writes one ERROR line to the log and the object is as it was. The three
  loaders \<open>loadCertificate\<close>, \<open>loadPrivateKey\<close> and \<open>loadTrustedCertificates\<close> throw
  whenever their library call fails.
\<close>

theorem loadClientCAList_is_best_effort:
  "(\<exists>p'. loadClientCAList L path p = Inr p' \<and>
      (SSL_load_client_CA_file L path = None \<longrightarrow>
         self p' = self p \<and>
         glog p' = glog p @ [(ERROR, ''Unable to load ca file: '' @ path @ '' '')])) \<and>
   (SSL_CTX_use_certificate_chain_file L (ctx_' (self p)) file = None \<longrightarrow>
      loadCertificate L (Some file) (Some ''PEM'') p =
        Inl (runtime_error (''SSL_CTX_use_certificate_chain_file: '' @ file @ '': ''))) \<and>
   (SSL_CTX_use_PrivateKey_file L (ctx_' (self p)) file = None \<longrightarrow>
      loadPrivateKey L (Some file) (Some ''PEM'') p =
        Inl (runtime_error ''SSL_CTX_use_PrivateKey_file: '')) \<and>
   (SSL_CTX_load_verify_locations L (ctx_' (self p)) file = None \<longrightarrow>
      loadTrustedCertificates L (Some file) p =
        Inl (runtime_error ''SSL_CTX_load_verify_locations: ''))"
proof -
  have ca: "\<exists>p'. loadClientCAList L path p = Inr p' \<and>
      (SSL_load_client_CA_file L path = None \<longrightarrow>
         self p' = self p \<and>
         glog p' = glog p @ [(ERROR, ''Unable to load ca file: '' @ path @ '' '')])"
    by (cases "SSL_load_client_CA_file L path") (simp_all add: loadClientCAList_def)
  have cert: "SSL_CTX_use_certificate_chain_file L (ctx_' (self p)) file = None \<longrightarrow>
      loadCertificate L (Some file) (Some ''PEM'') p =
        Inl (runtime_error (''SSL_CTX_use_certificate_chain_file: '' @ file @ '': ''))"
    by (simp add: loadCertificate_def)
  have key: "SSL_CTX_use_PrivateKey_file L (ctx_' (self p)) file = None \<longrightarrow>
      loadPrivateKey L (Some file) (Some ''PEM'') p =
        Inl (runtime_error ''SSL_CTX_use_PrivateKey_file: '')"
    by (simp add: loadPrivateKey_def)
  have trust: "SSL_CTX_load_verify_locations L (ctx_' (self p)) file = None \<longrightarrow>
      loadTrustedCertificates L (Some file) p =
        Inl (runtime_error ''SSL_CTX_load_verify_locations: '')"
    by (simp add: loadTrustedCertificates_def)
  from ca cert key trust show ?thesis by blast
qed

theorem loadClientCAList_is_best_effort_witness:
  "SSL_load_client_CA_file sample_openssl ''missing'' = None \<and>
   loadClientCAList sample_openssl ''missing'' sample_process =
     Inr (sample_process\<lparr>glog := [(ERROR, ''Unable to load ca file: missing '')]\<rparr>) \<and>
   loadCertificate sample_openssl (Some ''missing'') (Some ''PEM'') sample_process =
     Inl (runtime_error ''SSL_CTX_use_certificate_chain_file: missing: '') \<and>
   loadPrivateKey sample_openssl (Some ''missing'') (Some ''PEM'') sample_process =
     Inl (runtime_error ''SSL_CTX_use_PrivateKey_file: '') \<and>
   loadTrustedCertificates sample_openssl (Some ''missing'') sample_process =
     Inl (runtime_error ''SSL_CTX_load_verify_locations: '')"
proof -
  have none: "SSL_load_client_CA_file sample_openssl ''missing'' = None"
    "SSL_CTX_use_certificate_chain_file sample_openssl (ctx_' (self sample_process))
       ''missing'' = None"
    "SSL_CTX_use_PrivateKey_file sample_openssl (ctx_' (self sample_process)) ''missing'' = None"
    "SSL_CTX_load_verify_locations sample_openssl (ctx_' (self sample_process))
       ''missing'' = None"
    by (simp_all add: sample_openssl_def)
  have ca: "loadClientCAList sample_openssl ''missing'' sample_process =
     Inr (sample_process\<lparr>glog := [(ERROR, ''Unable to load ca file: missing '')]\<rparr>)"
    by (simp add: loadClientCAList_def none sample_process_def)
  from loadClientCAList_is_best_effort
    [of sample_openssl "''missing''" sample_process "''missing''"] none ca
  show ?thesis by simp
qed

section \<open>Disabling the advertisement\<close>

lemma unsetNextProtocols_self:
  "self (unsetNextProtocols L p) =
     (self p)\<lparr>advertisedNextProtocols_' := [], advertisedNextProtocolWeights_' := [],
       ctx_' := (ctx_' (self p))\<lparr>alpn_select_cb := None, alpn_protos := []\<rparr>\<rparr>"
  by (simp add: unsetNextProtocols_def deleteNextProtocolsStrings_def ERR_clear_error_def
      SSL_CTX_set_alpn_select_cb_def SSL_CTX_set_alpn_protos_def Let_def)

lemma unsetNextProtocols_rest:
  "ERR_queue (unsetNextProtocols L p) = [] \<and> glog (unsetNextProtocols L p) = glog p"
  by (simp add: unsetNextProtocols_def ERR_clear_error_def Let_def)

lemma unsetNextProtocols_disables: "alpn_disabled (self (unsetNextProtocols L p))"
  by (simp add: unsetNextProtocols_self alpn_disabled_def)

lemma unsetNextProtocols_when_disabled:
  assumes "alpn_disabled (self p)"
  shows "self (unsetNextProtocols L p) = self p"
proof -
  have ctx: "(ctx_' (self p))\<lparr>alpn_select_cb := None, alpn_protos := []\<rparr> = ctx_' (self p)"
    using assms by (cases "ctx_' (self p)") (simp add: alpn_disabled_def)
  show ?thesis
    using assms by (cases "self p") (simp add: unsetNextProtocols_self ctx alpn_disabled_def)
qed

text \<open>
  Claim C9. \<open>unsetNextProtocols\<close> is idempotent: a second call gives the state the first
  call gave, and on an object whose advertisement is already empty (no buffers, no
  weights, no callback, no published offer) a call leaves the object as it is.
\<close>

theorem unsetNextProtocols_idempotent:
  "unsetNextProtocols L (unsetNextProtocols L p) = unsetNextProtocols L p \<and>
   (alpn_disabled (self p) \<longrightarrow> self (unsetNextProtocols L p) = self p)"
proof -
  let ?q = "unsetNextProtocols L p"
  have "self (unsetNextProtocols L ?q) = self ?q"
    by (rule unsetNextProtocols_when_disabled) (rule unsetNextProtocols_disables)
  moreover have "ERR_queue (unsetNextProtocols L ?q) = ERR_queue ?q"
    "glog (unsetNextProtocols L ?q) = glog ?q"
    by (simp_all add: unsetNextProtocols_rest)
  ultimately have "unsetNextProtocols L ?q = ?q"
    by (simp add: process.equality)
  then show ?thesis
    by (simp add: unsetNextProtocols_when_disabled)
qed

theorem unsetNextProtocols_idempotent_witness:
  "alpn_disabled (self sample_process) \<and>
   self (unsetNextProtocols sample_openssl sample_process) = self sample_process \<and>
   unsetNextProtocols sample_openssl (unsetNextProtocols sample_openssl sample_process) =
     unsetNextProtocols sample_openssl sample_process"
proof -
  have "alpn_disabled (self sample_process)"
    by (simp add: alpn_disabled_def sample_process_def member_defaults_def sample_ctx_def)
  with unsetNextProtocols_idempotent [of sample_openssl sample_process]
  show ?thesis by simp
qed

section \<open>The bound on a certificate chain\<close>

lemma chain_loop_reads:
  assumes "accepts_certificates L" and "holds_certificates L bio n"
  shows "(i + n < kMaxCertChain \<longrightarrow>
           (\<exists>p'. chain_loop L i bio p = Inr p' \<and> ERR_queue p' = [])) \<and>
         (kMaxCertChain \<le> i + n \<longrightarrow>
           chain_loop L i bio p =
             Inl (runtime_error
               ''loadCertificateFromBufferPEM(): Too many certificates in chain''))"
  using assms(2)
proof (induction n arbitrary: i bio p)
  case 0
  then obtain errs where "PEM_read_bio_X509 L bio = Inl errs"
    by (cases "PEM_read_bio_X509 L bio") simp_all
  then show ?case
    by (simp add: chain_loop.simps [of L i bio p] ERR_clear_error_def)
next
  case (Suc n)
  then obtain x bio' where read: "PEM_read_bio_X509 L bio = Inr (x, bio')"
    and rest: "holds_certificates L bio' n"
    by (cases "PEM_read_bio_X509 L bio") auto
  show ?case
  proof (cases "i < kMaxCertChain")
    case False
    then show ?thesis
      by (simp add: chain_loop.simps [of L i bio p])
  next
    case True
    from assms(1) have "SSL_CTX_add1_chain_cert L (ctx_' (self p)) x \<noteq> None"
      by (simp add: accepts_certificates_def)
    then obtain ctx where add: "SSL_CTX_add1_chain_cert L (ctx_' (self p)) x = Some ctx"
      by blast
    have step: "chain_loop L i bio p = chain_loop L (i + 1) bio' (set_ctx p ctx)"
      using True read add by (simp add: chain_loop.simps [of L i bio p])
    from Suc.IH [OF rest, of "i + 1" "set_ctx p ctx"] show ?thesis
      by (simp add: step)
  qed
qed

text \<open>
  Claim C3. Let the library make the memory BIO, take the certificates it is handed, and
  read exactly \<open>N\<close> certificates from the buffer, \<open>N\<close> at least 1. For \<open>N\<close> up to
  64 \<open>loadCertificateFromBufferPEM\<close> returns, with the error queue empty: the read that
  finds no further block ends the chain. For \<open>N\<close> from 65 on it throws the runtime error
  "loadCertificateFromBufferPEM(): Too many certificates in chain".
\<close>

theorem loadCertificateFromBufferPEM_chain_bound:
  assumes "bio_takes L buf" and "accepts_certificates L"
    and "holds_certificates L buf N" and "1 \<le> N"
  shows "(N \<le> 64 \<longrightarrow>
           (\<exists>p'. loadCertificateFromBufferPEM L (Some buf) p = Inr p' \<and> ERR_queue p' = [])) \<and>
         (65 \<le> N \<longrightarrow>
           loadCertificateFromBufferPEM L (Some buf) p =
             Inl (runtime_error
               ''loadCertificateFromBufferPEM(): Too many certificates in chain''))"
proof -
  from assms(4) obtain n where N: "N = Suc n" by (cases N) simp_all
  with assms(3) obtain x bio where read: "PEM_read_bio_X509 L buf = Inr (x, bio)"
    and rest: "holds_certificates L bio n"
    by (cases "PEM_read_bio_X509 L buf") auto
  from assms(2) have "SSL_CTX_use_certificate L (ctx_' (self p)) x \<noteq> None"
    by (simp add: accepts_certificates_def)
  then obtain ctx where use: "SSL_CTX_use_certificate L (ctx_' (self p)) x = Some ctx"
    by blast
  have load: "loadCertificateFromBufferPEM L (Some buf) p = chain_loop L 0 bio (set_ctx p ctx)"
    using assms(1) read use by (simp add: loadCertificateFromBufferPEM_def bio_takes_def)
  from chain_loop_reads [OF assms(2) rest, of 0 "set_ctx p ctx"] show ?thesis
    by (simp add: load N kMaxCertChain_def)
qed

theorem loadCertificateFromBufferPEM_chain_bound_witness:
  "(\<exists>p'. loadCertificateFromBufferPEM sample_openssl (Some (replicate 64 (CHR ''C'')))
            sample_process = Inr p' \<and> ERR_queue p' = []) \<and>
   loadCertificateFromBufferPEM sample_openssl (Some (replicate 65 (CHR ''C''))) sample_process =
     Inl (runtime_error ''loadCertificateFromBufferPEM(): Too many certificates in chain'') \<and>
   holds_certificates sample_openssl (replicate 64 (CHR ''C'')) 64 \<and>
   holds_certificates sample_openssl (replicate 65 (CHR ''C'')) 65"
proof -
  have bio: "bio_takes sample_openssl (replicate 64 (CHR ''C''))"
    "bio_takes sample_openssl (replicate 65 (CHR ''C''))"
    by (simp_all add: bio_takes_def sample_openssl_def)
  have acc: "accepts_certificates sample_openssl"
    by (simp add: accepts_certificates_def sample_openssl_def)
  have h64: "holds_certificates sample_openssl (replicate 64 (CHR ''C'')) 64"
    by code_simp
  have h65: "holds_certificates sample_openssl (replicate 65 (CHR ''C'')) 65"
    by code_simp
  from loadCertificateFromBufferPEM_chain_bound [OF bio(1) acc h64, of sample_process]
    loadCertificateFromBufferPEM_chain_bound [OF bio(2) acc h65, of sample_process] h64 h65
  show ?thesis by simp
qed

section \<open>Setting the advertisement\<close>

lemma advertised_length_None:
  "advertised_length names n = None \<longleftrightarrow> list_ex (\<lambda>proto. 256 \<le> length proto) names"
  by (induction names arbitrary: n) (simp_all add: Let_def)

lemma delete_after_push:
  "deleteNextProtocolsStrings
     (c\<lparr>advertisedNextProtocols_' := bufs, advertisedNextProtocolWeights_' := ws\<rparr>) =
   deleteNextProtocolsStrings c"
  by (simp add: deleteNextProtocolsStrings_def)

lemma advertise_items_Inl:
  "advertise_items items tw c = Inl c' \<Longrightarrow> c' = deleteNextProtocolsStrings c"
proof (induction items arbitrary: tw c)
  case Nil
  then show ?case by simp
next
  case (Cons item rest)
  show ?case
  proof (cases "protocols item = []")
    case True
    with Cons show ?thesis by simp
  next
    case False
    show ?thesis
    proof (cases "advertised_length (protocols item) 0")
      case None
      with False Cons.prems show ?thesis by simp
    next
      case (Some len)
      with False Cons.prems Cons.IH show ?thesis
        by (fastforce simp: delete_after_push)
    qed
  qed
qed

lemma advertise_items_Inr:
  "advertise_items items tw c = Inr (tw', c') \<Longrightarrow>
   tw' = tw + kept_weight items \<and>
   deleteNextProtocolsStrings c' = deleteNextProtocolsStrings c \<and>
   length (advertisedNextProtocols_' c') =
     length (advertisedNextProtocols_' c) +
     length (filter (\<lambda>item. protocols item \<noteq> []) items)"
proof (induction items arbitrary: tw c)
  case Nil
  then show ?case by (simp add: kept_weight_def)
next
  case (Cons item rest)
  show ?case
  proof (cases "protocols item = []")
    case True
    with Cons.prems have "advertise_items rest tw c = Inr (tw', c')" by simp
    from Cons.IH [OF this] True show ?thesis by (simp add: kept_weight_def)
  next
    case False
    show ?thesis
    proof (cases "advertised_length (protocols item) 0")
      case None
      with False Cons.prems show ?thesis by simp
    next
      case (Some len)
      let ?c = "c\<lparr>advertisedNextProtocols_' := advertisedNextProtocols_' c @
                     [\<lparr>adv_protocols = advertised_bytes (protocols item), adv_length = len\<rparr>],
                   advertisedNextProtocolWeights_' :=
                     advertisedNextProtocolWeights_' c @ [weight item]\<rparr>"
      from Some False Cons.prems
      have "advertise_items rest (tw + weight item) ?c = Inr (tw', c')" by simp
      from Cons.IH [OF this] False show ?thesis
        by (simp add: kept_weight_def delete_after_push add.assoc)
    qed
  qed
qed

lemma advertise_items_long:
  "has_long_name items \<Longrightarrow> \<exists>c'. advertise_items items tw c = Inl c'"
proof (induction items arbitrary: tw c)
  case Nil
  then show ?case by (simp add: has_long_name_def)
next
  case (Cons item rest)
  show ?case
  proof (cases "protocols item = []")
    case True
    with Cons.prems have "has_long_name rest" by (simp add: has_long_name_def)
    from Cons.IH [OF this] True show ?thesis by simp
  next
    case False
    show ?thesis
    proof (cases "advertised_length (protocols item) 0")
      case None
      with False show ?thesis by simp
    next
      case (Some len)
      then have "\<not> list_ex (\<lambda>proto. 256 \<le> length proto) (protocols item)"
        using advertised_length_None [of "protocols item" 0] by simp
      with Cons.prems have "has_long_name rest" by (simp add: has_long_name_def)
      from Cons.IH [OF this] False Some show ?thesis by simp
    qed
  qed
qed

text \<open>When the loop ends with a total weight other than 0, a buffer was pushed.\<close>

lemma advertise_items_kept:
  assumes "advertise_items items 0 c = Inr (tw, c')" and "tw \<noteq> 0"
  shows "advertisedNextProtocols_' c' \<noteq> []"
proof
  assume "advertisedNextProtocols_' c' = []"
  with advertise_items_Inr [OF assms(1)]
  have "filter (\<lambda>item. protocols item \<noteq> []) items = []" and "tw = kept_weight items"
    by simp_all
  then have "tw = 0" by (simp add: kept_weight_def)
  with assms(2) show False by simp
qed

lemma delete_when_unset:
  "deleteNextProtocolsStrings (self (unsetNextProtocols L p)) = self (unsetNextProtocols L p)"
  by (simp add: unsetNextProtocols_self deleteNextProtocolsStrings_def)

lemma set_long_name:
  assumes "has_long_name items"
  shows "setRandomizedAdvertisedNextProtocols L items p = (False, unsetNextProtocols L p)"
proof -
  from assms have ne: "items \<noteq> []" by (auto simp: has_long_name_def)
  from advertise_items_long [OF assms] obtain c'
    where c': "advertise_items items 0 (self (unsetNextProtocols L p)) = Inl c'" by blast
  from advertise_items_Inl [OF c'] have "c' = self (unsetNextProtocols L p)"
    by (simp add: delete_when_unset)
  with ne c' show ?thesis
    by (simp add: setRandomizedAdvertisedNextProtocols_def Let_def)
qed

lemma set_no_weight:
  assumes "items = [] \<or> kept_weight items = 0"
  shows "setRandomizedAdvertisedNextProtocols L items p = (False, unsetNextProtocols L p)"
proof (cases "items = []")
  case True
  then show ?thesis by (simp add: setRandomizedAdvertisedNextProtocols_def Let_def)
next
  case False
  with assms have zero: "kept_weight items = 0" by simp
  let ?p1 = "unsetNextProtocols L p"
  show ?thesis
  proof (cases "advertise_items items 0 (self ?p1)")
    case (Inl c')
    from advertise_items_Inl [OF Inl] have "c' = self ?p1" by (simp add: delete_when_unset)
    with False Inl show ?thesis
      by (simp add: setRandomizedAdvertisedNextProtocols_def Let_def)
  next
    case (Inr r)
    obtain tw c' where r: "r = (tw, c')" by (cases r)
    from advertise_items_Inr [OF Inr [unfolded r]] zero
    have "tw = 0" and "deleteNextProtocolsStrings c' = self ?p1"
      by (simp_all add: delete_when_unset)
    with False Inr r show ?thesis
      by (simp add: setRandomizedAdvertisedNextProtocols_def Let_def)
  qed
qed

lemma nothing_advertised:
  "alpn_disabled c \<Longrightarrow> getAdvertisedNextProtocols c = ''''"
  by (simp add: alpn_disabled_def getAdvertisedNextProtocols_def)

text \<open>
  Claim C5. When some name of the item list has 256 bytes or more,
  \<open>setRandomizedAdvertisedNextProtocols\<close> returns false and leaves exactly the state of
  \<open>unsetNextProtocols\<close>: no buffer, no weight, no callback and no offer, whatever groups
  came before the long name; \<open>getAdvertisedNextProtocols\<close> then returns the empty string.
\<close>

theorem long_name_disables_advertisement:
  assumes "has_long_name items"
  shows "fst (setRandomizedAdvertisedNextProtocols L items p) = False \<and>
         snd (setRandomizedAdvertisedNextProtocols L items p) = unsetNextProtocols L p \<and>
         alpn_disabled (self (snd (setRandomizedAdvertisedNextProtocols L items p))) \<and>
         getAdvertisedNextProtocols
           (self (snd (setRandomizedAdvertisedNextProtocols L items p))) = ''''"
  using set_long_name [OF assms, of L p] unsetNextProtocols_disables [of L p]
  by (simp add: nothing_advertised)

theorem long_name_disables_advertisement_witness:
  "has_long_name
     [\<lparr>weight = 1, protocols = [''h2'']\<rparr>, \<lparr>weight = 2, protocols = [replicate 256 (CHR ''x'')]\<rparr>] \<and>
   setRandomizedAdvertisedNextProtocols sample_openssl
     [\<lparr>weight = 1, protocols = [''h2'']\<rparr>, \<lparr>weight = 2, protocols = [replicate 256 (CHR ''x'')]\<rparr>]
     sample_process = (False, sample_process) \<and>
   getAdvertisedNextProtocols (self sample_process) = ''''"
proof -
  let ?items = "[\<lparr>weight = 1, protocols = [''h2'']\<rparr>,
                 \<lparr>weight = 2, protocols = [replicate 256 (CHR ''x'')]\<rparr>]"
  have long: "has_long_name ?items"
    by (simp add: has_long_name_def)
  have unset: "unsetNextProtocols sample_openssl sample_process = sample_process"
    by (simp add: unsetNextProtocols_def deleteNextProtocolsStrings_def ERR_clear_error_def
        SSL_CTX_set_alpn_select_cb_def SSL_CTX_set_alpn_protos_def Let_def
        sample_process_def member_defaults_def sample_ctx_def)
  note run = long_name_disables_advertisement [OF long, of sample_openssl sample_process]
  have state: "snd (setRandomizedAdvertisedNextProtocols sample_openssl ?items sample_process) =
      sample_process"
    using run by (simp add: unset)
  have result: "fst (setRandomizedAdvertisedNextProtocols sample_openssl ?items sample_process) =
      False"
    using run by simp
  have offer: "getAdvertisedNextProtocols (self sample_process) = ''''"
    using run by (simp add: state)
  from long state result offer show ?thesis by (simp add: prod_eq_iff)
qed

lemma advertise_items_skips:
  "advertise_items (filter (\<lambda>item. protocols item \<noteq> []) items) tw c =
   advertise_items items tw c"
  by (induction items arbitrary: tw c) (simp_all split: option.splits)

lemma set_skips_empty_groups:
  "setRandomizedAdvertisedNextProtocols L (filter (\<lambda>item. protocols item \<noteq> []) items) p =
   setRandomizedAdvertisedNextProtocols L items p"
proof (cases "filter (\<lambda>item. protocols item \<noteq> []) items = []")
  case True
  then have "kept_weight items = 0" by (simp add: kept_weight_def)
  then have "setRandomizedAdvertisedNextProtocols L items p = (False, unsetNextProtocols L p)"
    by (simp add: set_no_weight)
  with True show ?thesis
    by (simp add: set_no_weight)
next
  case False
  then have "items \<noteq> []" by auto
  with False show ?thesis
    by (simp add: setRandomizedAdvertisedNextProtocols_def advertise_items_skips)
qed

text \<open>
  Claim C6. When the item list is empty, or the weights of the groups that have a name
  add up to 0, \<open>setRandomizedAdvertisedNextProtocols\<close> returns false and leaves
  negotiation disabled (the state of \<open>unsetNextProtocols\<close>). Groups without a name are
  skipped: the call does what it does on the list without them. A single group of
  weight 0 with the one name \<open>a\<close> gives false and leaves negotiation disabled.
\<close>

theorem no_weight_disables_advertisement:
  assumes "items = [] \<or> kept_weight items = 0"
  shows "fst (setRandomizedAdvertisedNextProtocols L items p) = False \<and>
         snd (setRandomizedAdvertisedNextProtocols L items p) = unsetNextProtocols L p \<and>
         alpn_disabled (self (snd (setRandomizedAdvertisedNextProtocols L items p))) \<and>
         setRandomizedAdvertisedNextProtocols L
           (filter (\<lambda>item. protocols item \<noteq> []) groups) p =
           setRandomizedAdvertisedNextProtocols L groups p \<and>
         fst (setRandomizedAdvertisedNextProtocols L [\<lparr>weight = 0, protocols = [''a'']\<rparr>] p) =
           False \<and>
         alpn_disabled (self (snd (setRandomizedAdvertisedNextProtocols L
           [\<lparr>weight = 0, protocols = [''a'']\<rparr>] p)))"
proof -
  have "kept_weight [\<lparr>weight = 0, protocols = [''a'']\<rparr>] = 0"
    by (simp add: kept_weight_def)
  then have one: "setRandomizedAdvertisedNextProtocols L [\<lparr>weight = 0, protocols = [''a'']\<rparr>] p =
      (False, unsetNextProtocols L p)"
    by (simp add: set_no_weight)
  from set_no_weight [OF assms, of L p] one unsetNextProtocols_disables [of L p]
    set_skips_empty_groups [of L groups p]
  show ?thesis by simp
qed

theorem no_weight_disables_advertisement_witness:
  "kept_weight [\<lparr>weight = 0, protocols = [''a'']\<rparr>] = 0 \<and>
   setRandomizedAdvertisedNextProtocols sample_openssl [\<lparr>weight = 0, protocols = [''a'']\<rparr>]
     sample_process = (False, sample_process) \<and>
   setRandomizedAdvertisedNextProtocols sample_openssl [] sample_process =
     (False, sample_process) \<and>
   kept_weight [\<lparr>weight = 5, protocols = []\<rparr>, \<lparr>weight = 1, protocols = [''h2'']\<rparr>,
                \<lparr>weight = - 1, protocols = [''spdy'']\<rparr>] = 0 \<and>
   fst (setRandomizedAdvertisedNextProtocols sample_openssl
     [\<lparr>weight = 5, protocols = []\<rparr>, \<lparr>weight = 1, protocols = [''h2'']\<rparr>,
      \<lparr>weight = - 1, protocols = [''spdy'']\<rparr>] sample_process) = False"
proof -
  have unset: "unsetNextProtocols sample_openssl sample_process = sample_process"
    by (simp add: unsetNextProtocols_def deleteNextProtocolsStrings_def ERR_clear_error_def
        SSL_CTX_set_alpn_select_cb_def SSL_CTX_set_alpn_protos_def Let_def
        sample_process_def member_defaults_def sample_ctx_def)
  have k1: "kept_weight [\<lparr>weight = 0, protocols = [''a'']\<rparr>] = 0"
    and k2: "kept_weight [\<lparr>weight = 5, protocols = []\<rparr>, \<lparr>weight = 1, protocols = [''h2'']\<rparr>,
                \<lparr>weight = - 1, protocols = [''spdy'']\<rparr>] = 0"
    by (simp_all add: kept_weight_def)
  let ?one = "[\<lparr>weight = 0, protocols = [''a'']\<rparr>]"
  let ?three = "[\<lparr>weight = 5, protocols = []\<rparr>, \<lparr>weight = 1, protocols = [''h2'']\<rparr>,
                 \<lparr>weight = - 1, protocols = [''spdy'']\<rparr>]"
  have r1: "setRandomizedAdvertisedNextProtocols sample_openssl ?one sample_process =
      (False, sample_process)"
    using no_weight_disables_advertisement [of ?one sample_openssl sample_process] k1
    by (simp add: prod_eq_iff unset)
  have r0: "setRandomizedAdvertisedNextProtocols sample_openssl [] sample_process =
      (False, sample_process)"
    using no_weight_disables_advertisement [of "[]" sample_openssl sample_process]
    by (simp add: prod_eq_iff unset)
  have r3: "fst (setRandomizedAdvertisedNextProtocols sample_openssl ?three sample_process) =
      False"
    using no_weight_disables_advertisement [of ?three sample_openssl sample_process] k2
    by simp
  from k1 k2 r1 r0 r3 show ?thesis by simp
qed

section \<open>Hostname matching\<close>

lemma of_char_toupper:
  "(of_char (toupper c) :: nat) =
     (if 97 \<le> (of_char c :: nat) \<and> (of_char c :: nat) \<le> 122 then of_char c - 32
      else of_char c)"
proof -
  have "(of_char c :: nat) - 32 < 256"
    using nat_of_char_less_256 [of c] by arith
  then show ?thesis by (simp add: toupper_def)
qed

lemma toupper_star: "toupper c = CHR ''*'' \<longleftrightarrow> c = CHR ''*''"
proof -
  have "toupper c = CHR ''*'' \<longleftrightarrow> (of_char (toupper c) :: nat) = of_char (CHR ''*'')"
    by (simp only: of_char_eq_iff)
  also have "\<dots> \<longleftrightarrow> (of_char c :: nat) = of_char (CHR ''*'')"
    by (simp add: of_char_toupper) arith
  also have "\<dots> \<longleftrightarrow> c = CHR ''*''"
    by (simp only: of_char_eq_iff)
  finally show ?thesis .
qed

lemma toupper_dot: "toupper c = CHR ''.'' \<longleftrightarrow> c = CHR ''.''"
proof -
  have "toupper c = CHR ''.'' \<longleftrightarrow> (of_char (toupper c) :: nat) = of_char (CHR ''.'')"
    by (simp only: of_char_eq_iff)
  also have "\<dots> \<longleftrightarrow> (of_char c :: nat) = of_char (CHR ''.'')"
    by (simp add: of_char_toupper) arith
  also have "\<dots> \<longleftrightarrow> c = CHR ''.''"
    by (simp only: of_char_eq_iff)
  finally show ?thesis .
qed

lemma toupper_of_star: "toupper (CHR ''*'') = CHR ''*''"
  by (simp add: toupper_def)

lemma toupper_of_dot: "toupper (CHR ''.'') = CHR ''.''"
  by (simp add: toupper_def)

subsection \<open>The loops on indices and the scan on lists\<close>

lemma nth_not_nul:
  assumes "CHR 0x00 \<notin> set host" and "j < length host"
  shows "host ! j \<noteq> CHR 0x00"
proof
  assume "host ! j = CHR 0x00"
  moreover from assms(2) have "host ! j \<in> set host" by simp
  ultimately have "CHR 0x00 \<in> set host" by simp
  with assms(1) show False by simp
qed

lemma char_at_end:
  assumes "CHR 0x00 \<notin> set host" and "j \<le> length host"
  shows "char_at host j = CHR 0x00 \<longleftrightarrow> j = length host"
proof (cases "j < length host")
  case True
  with assms(1) have "host ! j \<noteq> CHR 0x00" by (rule nth_not_nul)
  with True show ?thesis by (simp add: char_at_def)
next
  case False
  with assms(2) show ?thesis by (simp add: char_at_def)
qed

lemma skip_component_run:
  "CHR 0x00 \<notin> set host \<Longrightarrow> j \<le> length host \<Longrightarrow>
   skip_component host j = j + length (takeWhile (\<lambda>d. d \<noteq> CHR ''.'') (drop j host))"
proof (induction host j rule: skip_component.induct)
  case (1 host j)
  show ?case
  proof (cases "j < length host")
    case False
    then have "skip_component host j = j"
      by (subst skip_component.simps) (simp add: char_at_def)
    with False "1.prems" show ?thesis by simp
  next
    case True
    then have split: "drop j host = host ! j # drop (Suc j) host"
      by (simp add: Cons_nth_drop_Suc)
    from "1.prems"(1) True have nz: "host ! j \<noteq> CHR 0x00" by (rule nth_not_nul)
    from True have at: "char_at host j = host ! j" by (simp add: char_at_def)
    show ?thesis
    proof (cases "host ! j = CHR ''.''")
      case dot: True
      have "skip_component host j = j"
        by (subst skip_component.simps) (simp add: at dot)
      with dot show ?thesis by (simp add: split)
    next
      case nodot: False
      from nodot nz at
      have go: "char_at host j \<noteq> CHR ''.'' \<and> char_at host j \<noteq> CHR 0x00"
        by simp
      from True have next_j: "j + 1 \<le> length host" by simp
      have "skip_component host j = skip_component host (j + 1)"
        by (subst skip_component.simps) (simp add: at nodot nz)
      with "1.IH" [OF go "1.prems"(1) next_j] nodot show ?thesis
        by (simp add: split)
    qed
  qed
qed

lemma drop_skip_component:
  assumes "CHR 0x00 \<notin> set host" and "j \<le> length host"
  shows "drop (skip_component host j) host = dropWhile (\<lambda>d. d \<noteq> CHR ''.'') (drop j host)"
    and "skip_component host j \<le> length host"
proof -
  let ?run = "takeWhile (\<lambda>d. d \<noteq> CHR ''.'') (drop j host)"
  have skip: "skip_component host j = j + length ?run"
    using assms by (rule skip_component_run)
  have "drop (j + length ?run) host = drop (length ?run) (drop j host)"
    by (simp add: add.commute)
  then show "drop (skip_component host j) host = dropWhile (\<lambda>d. d \<noteq> CHR ''.'') (drop j host)"
    by (simp add: skip dropWhile_eq_drop)
  have "length ?run \<le> length (drop j host)"
    by (rule length_takeWhile_le)
  with assms(2) show "skip_component host j \<le> length host"
    by (simp add: skip)
qed

lemma matchName_loop_greedy:
  assumes "CHR 0x00 \<notin> set host"
  shows "i \<le> length pattern \<Longrightarrow> j \<le> length host \<Longrightarrow>
    (case matchName_loop host pattern (int (length pattern)) i j of
       (i', j') \<Rightarrow> int i' = int (length pattern) \<and> char_at host j' = CHR 0x00) =
    greedy_match (drop i pattern) (drop j host)"
proof (induction n \<equiv> "length pattern - i" arbitrary: i j)
  case 0
  then have i: "i = length pattern" by simp
  have "matchName_loop host pattern (int (length pattern)) i j = (i, j)"
    by (subst matchName_loop.simps) (simp add: i)
  with i char_at_end [OF assms "0.prems"(2)] "0.prems"(2) show ?case by auto
next
  case (Suc n)
  then have i: "i < length pattern" by simp
  then have pat: "drop i pattern = pattern ! i # drop (Suc i) pattern"
    by (simp add: Cons_nth_drop_Suc)
  note unfold = matchName_loop.simps [of host pattern "int (length pattern)" i j]
  show ?case
  proof (cases "j < length host")
    case False
    with Suc.prems have j: "j = length host" by simp
    have "matchName_loop host pattern (int (length pattern)) i j = (i, j)"
      by (subst matchName_loop.simps) (simp add: j char_at_def)
    with i j pat show ?thesis by simp
  next
    case True
    then have hst: "drop j host = host ! j # drop (Suc j) host"
      by (simp add: Cons_nth_drop_Suc)
    from True char_at_end [OF assms, of j] have nz: "char_at host j \<noteq> CHR 0x00" by simp
    from True have at: "char_at host j = host ! j" by (simp add: char_at_def)
    from Suc.hyps(2) i have n: "n = length pattern - (i + 1)" by simp
    from i have i1: "i + 1 \<le> length pattern" by simp
    show ?thesis
    proof (cases "toupper (pattern ! i) = toupper (host ! j)")
      case same: True
      from True have "j + 1 \<le> length host" by simp
      from Suc.hyps(1) [OF n i1 this] same i nz at pat hst show ?thesis
        by (simp add: unfold)
    next
      case differ: False
      show ?thesis
      proof (cases "pattern ! i = CHR ''*''")
        case star: True
        from True have j: "j \<le> length host" by simp
        note skip = drop_skip_component [OF assms j]
        from Suc.hyps(1) [OF n i1 skip(2)] differ star i nz at pat hst skip(1) show ?thesis
          by (simp add: unfold)
      next
        case False
        with differ i nz at pat hst show ?thesis
          by (simp add: unfold)
      qed
    qed
  qed
qed

text \<open>On a host without a NUL byte \<open>matchName\<close> is the greedy scan.\<close>

lemma matchName_greedy:
  assumes "CHR 0x00 \<notin> set host"
  shows "matchName host pattern (int (length pattern)) = greedy_match pattern host"
  using matchName_loop_greedy [OF assms, of 0 pattern 0]
  by (simp add: matchName_def)

subsection \<open>The scan against the wildcard reading\<close>

lemma star_takes_nothing: "wildcard_match ps host \<Longrightarrow> wildcard_match (CHR ''*'' # ps) host"
  by (cases host) simp_all

lemma star_takes_component:
  "wildcard_match ps (dropWhile (\<lambda>d. d \<noteq> CHR ''.'') host) \<Longrightarrow>
   wildcard_match (CHR ''*'' # ps) host"
  by (induction host) (auto split: if_splits)

lemma greedy_is_wildcard: "greedy_match pattern host \<Longrightarrow> wildcard_match pattern host"
proof (induction pattern host rule: greedy_match.induct)
  case (1 host)
  then show ?case by simp
next
  case (2 p ps)
  then show ?case by simp
next
  case (3 p ps c cs)
  show ?case
  proof (cases "toupper p = toupper c")
    case same: True
    with "3.prems" "3.IH"(1) have rest: "wildcard_match ps cs" by simp
    show ?thesis
    proof (cases "p = CHR ''*''")
      case True
      with same have "c = CHR ''*''" by (simp add: toupper_of_star toupper_star eq_commute)
      with True star_takes_nothing [OF rest] show ?thesis by simp
    next
      case False
      with same rest show ?thesis by simp
    qed
  next
    case differ: False
    with "3.prems" have star: "p = CHR ''*''"
      and run: "greedy_match ps (dropWhile (\<lambda>d. d \<noteq> CHR ''.'') (c # cs))"
      by (simp_all split: if_splits)
    from "3.IH"(2) [OF differ star run] star show ?thesis
      by (simp only: star_takes_component)
  qed
qed

lemma star_dot_component:
  "wildcard_match (CHR ''*'' # CHR ''.'' # ps) host \<Longrightarrow>
   wildcard_match (CHR ''.'' # ps) (dropWhile (\<lambda>d. d \<noteq> CHR ''.'') host)"
proof (induction host)
  case Nil
  then show ?case by simp
next
  case (Cons c cs)
  show ?case
  proof (cases "c = CHR ''.''")
    case True
    with Cons.prems show ?thesis by auto
  next
    case False
    with Cons.prems have "wildcard_match (CHR ''*'' # CHR ''.'' # ps) cs"
      by (auto simp: toupper_of_dot toupper_dot eq_commute)
    from Cons.IH [OF this] False show ?thesis by simp
  qed
qed

lemma wildcard_is_greedy:
  "stars_before_dots pattern \<Longrightarrow> CHR ''*'' \<notin> set host \<Longrightarrow>
   wildcard_match pattern host \<Longrightarrow> greedy_match pattern host"
proof (induction pattern arbitrary: host rule: stars_before_dots.induct)
  case 1
  then show ?case by simp
next
  case (2 p)
  then show ?case by (cases host) auto
next
  case (3 p q ps)
  from "3.prems"(1) have tail: "stars_before_dots (q # ps)"
    and shape: "p \<noteq> CHR ''*'' \<or> q = CHR ''.''" by simp_all
  show ?case
  proof (cases "p = CHR ''*''")
    case False
    with "3.prems"(3) obtain c cs where host: "host = c # cs"
      and same: "toupper p = toupper c" and rest: "wildcard_match (q # ps) cs"
      by (cases host) auto
    from "3.prems"(2) host have "CHR ''*'' \<notin> set cs" by simp
    from "3.IH" [OF tail this rest] host same show ?thesis by simp
  next
    case True
    with shape have q: "q = CHR ''.''" by simp
    from "3.prems"(3) True q obtain c cs where host: "host = c # cs"
      by (cases host) auto
    from "3.prems"(2) host have c: "c \<noteq> CHR ''*''" by auto
    then have differ: "toupper p \<noteq> toupper c"
      using True by (simp add: toupper_of_star toupper_star eq_commute)
    have "CHR ''*'' \<notin> set (dropWhile (\<lambda>d. d \<noteq> CHR ''.'') host)"
      using "3.prems"(2) set_dropWhileD by fastforce
    moreover have "wildcard_match (q # ps) (dropWhile (\<lambda>d. d \<noteq> CHR ''.'') host)"
      using "3.prems"(3) True q by (simp only: star_dot_component)
    ultimately have "greedy_match (q # ps) (dropWhile (\<lambda>d. d \<noteq> CHR ''.'') host)"
      using "3.IH" [OF tail] by blast
    with host True differ show ?thesis by simp
  qed
qed

text \<open>
  Claim C2, as the code has it. For a host without a NUL byte and the pattern's length
  as size: when \<open>matchName\<close> returns true the pattern, compared without regard to case,
  consumes exactly the whole host with every \<open>*\<close> standing for zero or more characters
  other than a dot; when the host has no \<open>*\<close> and every \<open>*\<close> of the pattern is
  directly followed by a dot, \<open>matchName\<close> returns true for every such match. The
  three examples of the claim hold.
\<close>

theorem matchName_wildcard:
  assumes "CHR 0x00 \<notin> set host"
  shows "(matchName host pattern (int (length pattern)) \<longrightarrow> wildcard_match pattern host) \<and>
         (stars_before_dots pattern \<and> CHR ''*'' \<notin> set host \<and> wildcard_match pattern host \<longrightarrow>
            matchName host pattern (int (length pattern))) \<and>
         matchName ''foo.example.com'' ''*.example.com'' 13 \<and>
         \<not> matchName ''example.com'' ''*.example.com'' 13 \<and>
         \<not> matchName ''a.b.example.com'' ''*.example.com'' 13"
proof -
  have sound: "matchName host pattern (int (length pattern)) \<longrightarrow> wildcard_match pattern host"
    by (simp add: matchName_greedy [OF assms] greedy_is_wildcard)
  have complete: "stars_before_dots pattern \<and> CHR ''*'' \<notin> set host \<and>
      wildcard_match pattern host \<longrightarrow> matchName host pattern (int (length pattern))"
    by (simp add: matchName_greedy [OF assms] wildcard_is_greedy)
  have ex1: "matchName ''foo.example.com'' ''*.example.com'' 13"
    by code_simp
  have ex2: "\<not> matchName ''example.com'' ''*.example.com'' 13"
    by code_simp
  have ex3: "\<not> matchName ''a.b.example.com'' ''*.example.com'' 13"
    by code_simp
  from sound complete ex1 ex2 ex3 show ?thesis by blast
qed

theorem matchName_wildcard_witness:
  "CHR 0x00 \<notin> set ''www.Example.com'' \<and>
   CHR ''*'' \<notin> set ''www.Example.com'' \<and>
   stars_before_dots ''*.example.COM'' \<and>
   wildcard_match ''*.example.COM'' ''www.Example.com'' \<and>
   matchName ''www.Example.com'' ''*.example.COM'' (int (length ''*.example.COM''))"
proof -
  have nul: "CHR 0x00 \<notin> set ''www.Example.com''"
    and star: "CHR ''*'' \<notin> set ''www.Example.com''"
    by simp_all
  have shape: "stars_before_dots ''*.example.COM''"
    by simp
  have wild: "wildcard_match ''*.example.COM'' ''www.Example.com''"
    by code_simp
  from matchName_wildcard [OF nul, of "''*.example.COM''"] nul star shape wild
  show ?thesis by blast
qed

text \<open>
  Claim C2 as stated fails in the direction from a match to true. The pattern \<open>a*\<close>
  consumes the host \<open>a\<close> with the \<open>*\<close> standing for no character, and the pattern
  \<open>*a\<close> consumes the host \<open>ba\<close> with the \<open>*\<close> standing for \<open>b\<close>; \<open>matchName\<close> returns
  false for both, since it leaves the loop when the host has run out and lets a \<open>*\<close>
  take the whole component.
\<close>

theorem matchName_misses_matches:
  "\<not> matchName ''a'' ''a*'' 2 \<and> wildcard_match ''a*'' ''a'' \<and>
   \<not> matchName ''ba'' ''*a'' 2 \<and> wildcard_match ''*a'' ''ba''"
  by code_simp

end
